theory Spec2Isabelle
  imports Main "HOL-Library.Word" "HOL-Library.Multiset"
begin

unbundle bit_operations_syntax

section \<open>Data model\<close>

text \<open>
  The file-operation layer of the sentry (package \<open>linux\<close>, the syscall
  implementations on top of \<open>fs.Dirent\<close> / \<open>fs.Inode\<close>) is embedded as state
  transformers over a record of the task state. Everything the layer calls but does
  not define (the mount namespace's lookups, the inode operations, the credentials
  and descriptor-table helpers) is a field of the record \<open>env\<close>: the functions of
  this layer are modelled from their source, the collaborators are parameters.
\<close>

datatype errno =
    EBADF | ENOTDIR | EISDIR | ELOOP | EEXIST | ENOENT | EINVAL | EPERM | EACCES
  | EFBIG | ENOTSUP | ESPIPE | ENODEV | EFAULT | ENAMETOOLONG | EMFILE | EROFS | EIO
  | ENOLINK | EOPNOTSUPP | ERESTARTSYS | ErrInterrupted | ErrResolveViaReadlink

text \<open>
  Modelled from the spec: the type tag of \<open>Inode.StableAttr\<close> (section 3 lists
  regular, directory, symlink, fifo, socket, device) and the predicates
  \<open>fs.IsDir\<close>, \<open>fs.IsSymlink\<close>, \<open>fs.IsFile\<close>, \<open>fs.IsRegular\<close>, \<open>fs.IsPipe\<close> on it,
  which live in package \<open>fs\<close>.
\<close>

datatype InodeType = Regular | Directory | Symlink | Fifo | Socket | Device

definition IsDir :: "InodeType \<Rightarrow> bool" where
  "IsDir ty = (ty = Directory)"

definition IsSymlink :: "InodeType \<Rightarrow> bool" where
  "IsSymlink ty = (ty = Symlink)"

definition IsFile :: "InodeType \<Rightarrow> bool" where
  "IsFile ty = (ty = Regular)"

definition IsRegular :: "InodeType \<Rightarrow> bool" where
  "IsRegular ty = (ty = Regular)"

definition IsPipe :: "InodeType \<Rightarrow> bool" where
  "IsPipe ty = (ty = Fifo)"

text \<open>\<open>fs.PermMask\<close> and the fields of \<open>fs.FileFlags\<close> that this layer reads or sets.\<close>

record PermMask =
  pm_Read :: bool
  pm_Write :: bool
  pm_Execute :: bool

record FileFlags =
  ff_Read :: bool
  ff_Write :: bool
  ff_Directory :: bool
  ff_LargeFile :: bool

text \<open>\<open>fs.FilePermissions\<close>, \<open>fs.FileOwner\<close> and the part of \<open>fs.UnstableAttr\<close> used by chown.\<close>

record FilePermissions =
  fp_User :: PermMask
  fp_Group :: PermMask
  fp_Other :: PermMask
  fp_Sticky :: bool
  fp_SetUID :: bool
  fp_SetGID :: bool

type_synonym uid32 = "32 word"

record FileOwner =
  fo_UID :: uid32
  fo_GID :: uid32

record UnstableAttr =
  ua_Owner :: FileOwner
  ua_Perms :: FilePermissions

text \<open>\<open>auth.Credentials\<close>: the fields read or written by this layer.\<close>

record Credentials =
  RealKUID :: uid32
  EffectiveKUID :: uid32
  RealKGID :: uid32
  EffectiveKGID :: uid32
  PermittedCaps :: "64 word"
  EffectiveCaps :: "64 word"
  UserNamespace :: nat

text \<open>
  A \<open>*fs.Dirent\<close> is its identity (a number); a \<open>*fs.File\<close> carries its identity, the
  dirent it was opened on and its flags.
\<close>

record File =
  file_id :: nat
  file_Dirent :: nat
  file_Flags :: FileFlags

datatype refobj = DirentRef nat | FileRef nat

datatype refevent = Acquire refobj | Release refobj

record SignalInfo =
  Signo :: int
  Code :: int

text \<open>
  The task: the backend's state \<open>fs\<close> (changed only by the backend's mutators), the
  reference counts with the log of the \<open>IncRef\<close>/\<open>DecRef\<close> calls made, the FSContext
  (root, working directory, umask), the descriptor table, the credentials, the
  file-size limit of the thread group, and the signals and inotify events sent.
\<close>

record 'fs task =
  fs :: 'fs
  refs :: "refobj \<Rightarrow> int"
  reflog :: "refevent list"
  fsroot :: nat
  fscwd :: nat
  fsumask :: "64 word"
  fdtable :: "int \<Rightarrow> File option"
  cloexec :: "int \<Rightarrow> bool"
  creds :: Credentials
  FileSizeCur :: "64 word"
  signals :: "SignalInfo list"
  inotify :: "(nat \<times> nat) list"
  unimplemented :: nat

text \<open>The collaborators, as parameters.\<close>

record 'fs env =
  CopyInString :: "nat \<Rightarrow> nat \<Rightarrow> errno + string"
  TrimTrailingSlashes :: "string \<Rightarrow> string \<times> bool"
  SplitLast :: "string \<Rightarrow> string \<times> string"
  MountFindInode :: "'fs \<Rightarrow> Credentials \<Rightarrow> nat \<Rightarrow> nat option \<Rightarrow> string \<Rightarrow> nat \<Rightarrow> (errno + nat) \<times> nat"
  MountFindLink :: "'fs \<Rightarrow> Credentials \<Rightarrow> nat \<Rightarrow> nat option \<Rightarrow> string \<Rightarrow> nat \<Rightarrow> (errno + nat) \<times> nat"
  StableAttrType :: "'fs \<Rightarrow> nat \<Rightarrow> InodeType"
  InodeCheckPermission :: "'fs \<Rightarrow> Credentials \<Rightarrow> nat \<Rightarrow> PermMask \<Rightarrow> errno option"
  InodeCheckCapability :: "'fs \<Rightarrow> Credentials \<Rightarrow> nat \<Rightarrow> nat \<Rightarrow> bool"
  InodeGetlink :: "'fs \<Rightarrow> nat \<Rightarrow> errno + nat"
  InodeReadlink :: "'fs \<Rightarrow> nat \<Rightarrow> errno + string"
  InodeGetFile :: "'fs \<Rightarrow> nat \<Rightarrow> FileFlags \<Rightarrow> (errno + File) \<times> 'fs"
  InodeTruncate :: "'fs \<Rightarrow> nat \<Rightarrow> 64 word \<Rightarrow> errno option \<times> 'fs"
  InodeAllocate :: "'fs \<Rightarrow> nat \<Rightarrow> 64 word \<Rightarrow> 64 word \<Rightarrow> errno option \<times> 'fs"
  InodeUnstableAttr :: "'fs \<Rightarrow> nat \<Rightarrow> errno + UnstableAttr"
  InodeSetOwner :: "'fs \<Rightarrow> nat \<Rightarrow> FileOwner \<Rightarrow> errno option \<times> 'fs"
  InodeSetPermissions :: "'fs \<Rightarrow> nat \<Rightarrow> FilePermissions \<Rightarrow> bool \<times> 'fs"
  DirentCreate :: "'fs \<Rightarrow> Credentials \<Rightarrow> nat \<Rightarrow> nat \<Rightarrow> string \<Rightarrow> FileFlags \<Rightarrow> FilePermissions \<Rightarrow> (errno + File) \<times> 'fs"
  DropSetUIDAndMaybeGID :: "FilePermissions \<Rightarrow> FilePermissions"
  FilePermsFromMode :: "16 word \<Rightarrow> FilePermissions"
  linuxToFlags :: "64 word \<Rightarrow> FileFlags"
  flagsToPermissions :: "64 word \<Rightarrow> PermMask"
  NewFDFrom :: "(int \<Rightarrow> File option) \<Rightarrow> int \<Rightarrow> errno + int"
  ConvertIntr :: "errno \<Rightarrow> errno \<Rightarrow> errno"
  MapToKUID :: "nat \<Rightarrow> uid32 \<Rightarrow> uid32"
  MapToKGID :: "nat \<Rightarrow> uid32 \<Rightarrow> uid32"
  MapFromKUID :: "nat \<Rightarrow> uid32 \<Rightarrow> uid32"
  InGroup :: "Credentials \<Rightarrow> uid32 \<Rightarrow> bool"

subsection \<open>Constants of the Linux ABI\<close>

text \<open>
  Modelled from the spec: the constants of package \<open>linux\<close>, which src/ does not
  hold. The traversal budget is the 40 of section 3; the others have their values
  of the Linux ABI on amd64.
\<close>

definition AT_FDCWD :: int where
  "AT_FDCWD = - 100"

definition MaxSymlinkTraversals :: nat where
  "MaxSymlinkTraversals = 40"

definition PATH_MAX :: nat where
  "PATH_MAX = 4096"

definition SIGXFSZ :: int where
  "SIGXFSZ = 25"

definition SI_USER :: int where
  "SI_USER = 0"

definition IN_MODIFY :: nat where
  "IN_MODIFY = 2"

definition IN_OPEN :: nat where
  "IN_OPEN = 32"

definition O_CREAT :: "64 word" where
  "O_CREAT = 0x40"

definition O_EXCL :: "64 word" where
  "O_EXCL = 0x80"

definition O_TRUNC :: "64 word" where
  "O_TRUNC = 0x200"

definition O_NOFOLLOW :: "64 word" where
  "O_NOFOLLOW = 0x20000"

definition O_CLOEXEC :: "64 word" where
  "O_CLOEXEC = 0x80000"

definition CAP_CHOWN :: nat where
  "CAP_CHOWN = 0"

definition NoID :: uid32 where
  "NoID = 0xFFFFFFFF"

definition RootUID :: uid32 where
  "RootUID = 0"

subsection \<open>References, signals, events\<close>

text \<open>
  Modelled from the spec: the reference counts of dirents and files (\<open>IncRef\<close> and
  \<open>DecRef\<close> of package \<open>fs\<close>), as the counters of section 5, with a log of the
  calls made, in the manner of the instrumented backend of section 8.
\<close>

definition IncRef :: "refobj \<Rightarrow> 'fs task \<Rightarrow> 'fs task" where
  "IncRef x t = t\<lparr>refs := (refs t)(x := refs t x + 1), reflog := reflog t @ [Acquire x]\<rparr>"

definition DecRef :: "refobj \<Rightarrow> 'fs task \<Rightarrow> 'fs task" where
  "DecRef x t = t\<lparr>refs := (refs t)(x := refs t x - 1), reflog := reflog t @ [Release x]\<rparr>"

text \<open>
  Modelled from the spec: \<open>FSContext.RootDirectory\<close>, \<open>FSContext.WorkingDirectory\<close>
  and \<open>Task.GetFile\<close> of package \<open>kernel\<close> return their object with a reference
  taken for the caller (the callers below release it); \<open>Task.SendSignal\<close> and
  \<open>Dirent.InotifyEvent\<close> are recorded as the signals and events sent.
\<close>

definition RootDirectory :: "'fs task \<Rightarrow> nat \<times> 'fs task" where
  "RootDirectory t = (fsroot t, IncRef (DirentRef (fsroot t)) t)"

definition WorkingDirectory :: "'fs task \<Rightarrow> nat \<times> 'fs task" where
  "WorkingDirectory t = (fscwd t, IncRef (DirentRef (fscwd t)) t)"

definition GetFile :: "int \<Rightarrow> 'fs task \<Rightarrow> File option \<times> 'fs task" where
  "GetFile fd t =
     (case fdtable t fd of
        None \<Rightarrow> (None, t)
      | Some f \<Rightarrow> (Some f, IncRef (FileRef (file_id f)) t))"

definition SendSignal :: "SignalInfo \<Rightarrow> 'fs task \<Rightarrow> 'fs task" where
  "SendSignal info t = t\<lparr>signals := signals t @ [info]\<rparr>"

definition InotifyEvent :: "nat \<Rightarrow> nat \<Rightarrow> 'fs task \<Rightarrow> 'fs task" where
  "InotifyEvent d ev t = t\<lparr>inotify := inotify t @ [(d, ev)]\<rparr>"

text \<open>
  Modelled from the spec: \<open>MountNamespace.FindInode\<close> and \<open>FindLink\<close>. The lookup
  itself is a parameter; on success the dirent comes back with a reference taken
  (the callers release it), and the traversal budget, passed by pointer, comes back
  updated.
\<close>

definition FindInode :: "'fs env \<Rightarrow> nat \<Rightarrow> nat option \<Rightarrow> string \<Rightarrow> nat \<Rightarrow> 'fs task
    \<Rightarrow> (errno + nat) \<times> nat \<times> 'fs task" where
  "FindInode env root rel path rem t =
     (case MountFindInode env (fs t) (creds t) root rel path rem of
        (Inl e, rem') \<Rightarrow> (Inl e, rem', t)
      | (Inr d, rem') \<Rightarrow> (Inr d, rem', IncRef (DirentRef d) t))"

definition FindLink :: "'fs env \<Rightarrow> nat \<Rightarrow> nat option \<Rightarrow> string \<Rightarrow> nat \<Rightarrow> 'fs task
    \<Rightarrow> (errno + nat) \<times> nat \<times> 'fs task" where
  "FindLink env root rel path rem t =
     (case MountFindLink env (fs t) (creds t) root rel path rem of
        (Inl e, rem') \<Rightarrow> (Inl e, rem', t)
      | (Inr d, rem') \<Rightarrow> (Inr d, rem', IncRef (DirentRef d) t))"

section \<open>The resolvers\<close>

text \<open>The test \<open>len(path) > 0 && path[0] == '/'\<close> of \<open>fileOpOn\<close>.\<close>

definition absolute :: "string \<Rightarrow> bool" where
  "absolute path = (path \<noteq> [] \<and> hd path = CHR ''/'')"

text \<open>
  \<open>fileOpOn\<close>, up to the call of the closure: the anchor (lines 72 to 90), the root,
  the lookup, the releases of root, working directory and anchor file, and the
  error return of the lookup. The result is the early error, or the root, the
  dirent found and the remaining budget, with the task as the closure receives it.
\<close>

definition fileOpOn_resolve :: "'fs env \<Rightarrow> int \<Rightarrow> string \<Rightarrow> bool \<Rightarrow> 'fs task
    \<Rightarrow> (errno \<times> 'fs task) + (nat \<times> nat \<times> nat \<times> 'fs task)" where
  "fileOpOn_resolve env dirFD path resolve t =
     (let anchor =
        (if absolute path then Inr (None, None, None, t)
         else if dirFD = AT_FDCWD then
           (case WorkingDirectory t of (wd, t1) \<Rightarrow> Inr (Some wd, Some wd, None, t1))
         else
           (case GetFile dirFD t of
              (None, t1) \<Rightarrow> Inl (EBADF, t1)
            | (Some f, t1) \<Rightarrow>
                if \<not> IsDir (StableAttrType env (fs t1) (file_Dirent f))
                then Inl (ENOTDIR, DecRef (FileRef (file_id f)) t1)
                else Inr (None, Some (file_Dirent f), Some f, t1)))
      in case anchor of
        Inl bad \<Rightarrow> Inl bad
      | Inr (wd, rel, f, t1) \<Rightarrow>
          (case RootDirectory t1 of (root, t2) \<Rightarrow>
            (case (if resolve then FindInode env root rel path MaxSymlinkTraversals t2
                   else FindLink env root rel path MaxSymlinkTraversals t2) of
               (r, rem, t3) \<Rightarrow>
                 let t4 = DecRef (DirentRef root) t3;
                     t5 = (case wd of None \<Rightarrow> t4 | Some w \<Rightarrow> DecRef (DirentRef w) t4);
                     t6 = (case f of None \<Rightarrow> t5 | Some fl \<Rightarrow> DecRef (FileRef (file_id fl)) t5)
                 in (case r of
                       Inl err \<Rightarrow> Inl (err, t6)
                     | Inr d \<Rightarrow> Inr (root, d, rem, t6)))))"

text \<open>
  \<open>fileOpOn\<close>: the closure \<open>fn\<close> returns its error, or its result (the value a Go
  closure leaves in a captured variable); the dirent found is released after it.
\<close>

definition fileOpOn :: "'fs env \<Rightarrow> int \<Rightarrow> string \<Rightarrow> bool
    \<Rightarrow> (nat \<Rightarrow> nat \<Rightarrow> nat \<Rightarrow> 'fs task \<Rightarrow> (errno + 'r) \<times> 'fs task)
    \<Rightarrow> 'fs task \<Rightarrow> (errno + 'r) \<times> 'fs task" where
  "fileOpOn env dirFD path resolve fn t =
     (case fileOpOn_resolve env dirFD path resolve t of
        Inl (err, t') \<Rightarrow> (Inl err, t')
      | Inr (root, d, rem, t1) \<Rightarrow>
          (case fn root d rem t1 of (r, t2) \<Rightarrow> (r, DecRef (DirentRef d) t2)))"

definition fileOpAt :: "'fs env \<Rightarrow> int \<Rightarrow> string
    \<Rightarrow> (nat \<Rightarrow> nat \<Rightarrow> string \<Rightarrow> nat \<Rightarrow> 'fs task \<Rightarrow> (errno + 'r) \<times> 'fs task)
    \<Rightarrow> 'fs task \<Rightarrow> (errno + 'r) \<times> 'fs task" where
  "fileOpAt env dirFD path fn t =
     (case SplitLast env path of (dir, name) \<Rightarrow>
        if dir = ''/'' then
          (case RootDirectory t of (root, t1) \<Rightarrow>
             (case fn root root name MaxSymlinkTraversals t1 of
                (r, t2) \<Rightarrow> (r, DecRef (DirentRef root) t2)))
        else if dir = ''.'' \<and> dirFD = AT_FDCWD then
          (case WorkingDirectory t of (wd, t1) \<Rightarrow>
             (case RootDirectory t1 of (root, t2) \<Rightarrow>
                (case fn root wd name MaxSymlinkTraversals t2 of
                   (r, t3) \<Rightarrow> (r, DecRef (DirentRef root) (DecRef (DirentRef wd) t3)))))
        else fileOpOn env dirFD dir True (\<lambda>root d rem. fn root d name rem) t)"

definition copyInPath :: "'fs env \<Rightarrow> nat \<Rightarrow> bool \<Rightarrow> errno + (string \<times> bool)" where
  "copyInPath env addr allowEmpty =
     (case CopyInString env addr PATH_MAX of
        Inl err \<Rightarrow> Inl err
      | Inr path \<Rightarrow>
          if path = [] \<and> \<not> allowEmpty then Inl ENOENT
          else Inr (TrimTrailingSlashes env path))"

section \<open>truncate(2) and fallocate(2)\<close>

definition Truncate :: "'fs env \<Rightarrow> nat \<Rightarrow> 64 word \<Rightarrow> 'fs task \<Rightarrow> (errno + unit) \<times> 'fs task" where
  "Truncate env addr len t =
     (if sint len < 0 then (Inl EINVAL, t)
      else case copyInPath env addr False of
        Inl err \<Rightarrow> (Inl err, t)
      | Inr (path, dirPath) \<Rightarrow>
          if dirPath then (Inl EINVAL, t)
          else if FileSizeCur t \<le> len then
            (Inl EFBIG, SendSignal \<lparr>Signo = SIGXFSZ, Code = SI_USER\<rparr> t)
          else
            fileOpOn env AT_FDCWD path True
              (\<lambda>root d rem t1.
                 if IsDir (StableAttrType env (fs t1) d) then (Inl EISDIR, t1)
                 else if \<not> IsFile (StableAttrType env (fs t1) d) then (Inl EINVAL, t1)
                 else case InodeCheckPermission env (fs t1) (creds t1) d
                             \<lparr>pm_Read = False, pm_Write = True, pm_Execute = False\<rparr> of
                   Some err \<Rightarrow> (Inl err, t1)
                 | None \<Rightarrow>
                     (case InodeTruncate env (fs t1) d len of
                        (Some err, fs') \<Rightarrow> (Inl err, t1\<lparr>fs := fs'\<rparr>)
                      | (None, fs') \<Rightarrow> (Inr (), InotifyEvent d IN_MODIFY (t1\<lparr>fs := fs'\<rparr>))))
              t)"

text \<open>
  The body of \<open>Fallocate\<close> after the descriptor was found; the deferred release of
  the file runs after it.
\<close>

definition Fallocate_body :: "'fs env \<Rightarrow> File \<Rightarrow> 64 word \<Rightarrow> 64 word \<Rightarrow> 64 word \<Rightarrow> 'fs task
    \<Rightarrow> (errno + unit) \<times> 'fs task" where
  "Fallocate_body env file mode offset len t =
     (let ty = StableAttrType env (fs t) (file_Dirent file) in
      if sint offset < 0 \<or> sint len \<le> 0 then (Inl EINVAL, t)
      else if mode \<noteq> 0 then (Inl ENOTSUP, t\<lparr>unimplemented := Suc (unimplemented t)\<rparr>)
      else if \<not> ff_Write (file_Flags file) then (Inl EBADF, t)
      else if IsPipe ty then (Inl ESPIPE, t)
      else if IsDir ty then (Inl EISDIR, t)
      else if \<not> IsRegular ty then (Inl ENODEV, t)
      else
        let size = offset + len in
        if sint size < 0 then (Inl EFBIG, t)
        else if FileSizeCur t \<le> size then
          (Inl EFBIG, SendSignal \<lparr>Signo = SIGXFSZ, Code = SI_USER\<rparr> t)
        else
          (case InodeAllocate env (fs t) (file_Dirent file) offset len of
             (Some err, fs') \<Rightarrow> (Inl err, t\<lparr>fs := fs'\<rparr>)
           | (None, fs') \<Rightarrow>
               (Inr (), InotifyEvent (file_Dirent file) IN_MODIFY (t\<lparr>fs := fs'\<rparr>))))"

definition Fallocate :: "'fs env \<Rightarrow> int \<Rightarrow> 64 word \<Rightarrow> 64 word \<Rightarrow> 64 word \<Rightarrow> 'fs task
    \<Rightarrow> (errno + unit) \<times> 'fs task" where
  "Fallocate env fd mode offset len t =
     (case GetFile fd t of
        (None, t1) \<Rightarrow> (Inl EBADF, t1)
      | (Some file, t1) \<Rightarrow>
          (case Fallocate_body env file mode offset len t1 of
             (r, t2) \<Rightarrow> (r, DecRef (FileRef (file_id file)) t2)))"

section \<open>open(2) without O_CREAT\<close>

text \<open>
  Modelled from the spec: \<open>Task.NewFDFrom\<close> (section 6). The descriptor table
  chooses the number, a parameter, or fails; the table then holds the file, with a
  reference of its own, and the close-on-exec flag.
\<close>

definition installFD :: "'fs env \<Rightarrow> 64 word \<Rightarrow> File \<Rightarrow> 'fs task \<Rightarrow> (errno + int) \<times> 'fs task" where
  "installFD env flags file t =
     (case NewFDFrom env (fdtable t) 0 of
        Inl err \<Rightarrow> (Inl err, t)
      | Inr newFD \<Rightarrow>
          (Inr newFD,
           IncRef (FileRef (file_id file))
             (t\<lparr>fdtable := (fdtable t)(newFD \<mapsto> file),
                cloexec := (cloexec t)(newFD := (flags AND O_CLOEXEC \<noteq> 0))\<rparr>)))"

text \<open>The closure of \<open>openAt\<close> (lines 144 to 208).\<close>

definition openAt_fn :: "'fs env \<Rightarrow> 64 word \<Rightarrow> bool \<Rightarrow> bool \<Rightarrow> nat \<Rightarrow> nat \<Rightarrow> nat \<Rightarrow> 'fs task
    \<Rightarrow> (errno + int) \<times> 'fs task" where
  "openAt_fn env flags dirPath resolve root d rem t =
     (case InodeCheckPermission env (fs t) (creds t) d (flagsToPermissions env flags) of
        Some err \<Rightarrow> (Inl err, t)
      | None \<Rightarrow>
          let ty = StableAttrType env (fs t) d;
              fileFlags = (linuxToFlags env flags)\<lparr>ff_LargeFile := True\<rparr>
          in
          if IsSymlink ty \<and> \<not> resolve then (Inl ELOOP, t)
          else if IsDir ty \<and> ff_Write fileFlags then (Inl EISDIR, t)
          else if \<not> IsDir ty \<and> ff_Directory fileFlags then (Inl ENOTDIR, t)
          else if \<not> IsDir ty \<and> dirPath then (Inl ENOTDIR, t)
          else
            (case InodeGetFile env (fs t) d fileFlags of
               (Inl err, fs1) \<Rightarrow> (Inl (ConvertIntr env err ERESTARTSYS), t\<lparr>fs := fs1\<rparr>)
             | (Inr file, fs1) \<Rightarrow>
                 let t1 = IncRef (FileRef (file_id file)) (t\<lparr>fs := fs1\<rparr>);
                     body =
                       (if flags AND O_TRUNC \<noteq> 0 then
                          (case InodeTruncate env (fs t1) d 0 of
                             (Some err, fs2) \<Rightarrow> (Some err, t1\<lparr>fs := fs2\<rparr>)
                           | (None, fs2) \<Rightarrow> (None, t1\<lparr>fs := fs2\<rparr>))
                        else (None, t1))
                 in
                 (case body of
                    (Some err, t2) \<Rightarrow> (Inl err, DecRef (FileRef (file_id file)) t2)
                  | (None, t2) \<Rightarrow>
                      (case installFD env flags file t2 of
                         (Inl err, t3) \<Rightarrow> (Inl err, DecRef (FileRef (file_id file)) t3)
                       | (Inr newFD, t3) \<Rightarrow>
                           (Inr newFD,
                            DecRef (FileRef (file_id file)) (InotifyEvent d IN_OPEN t3))))))"

definition openAt :: "'fs env \<Rightarrow> int \<Rightarrow> nat \<Rightarrow> 64 word \<Rightarrow> 'fs task \<Rightarrow> (errno + int) \<times> 'fs task" where
  "openAt env dirFD addr flags t =
     (case copyInPath env addr False of
        Inl err \<Rightarrow> (Inl err, t)
      | Inr (path, dirPath) \<Rightarrow>
          let resolve = (flags AND O_NOFOLLOW = 0)
          in fileOpOn env dirFD path resolve (openAt_fn env flags dirPath resolve) t)"

section \<open>access(2)\<close>

text \<open>
  The credentials the closure of \<open>accessAt\<close> builds (lines 542 to 549): a fork of the
  task's credentials with the effective ids set to the real ones and the effective
  capabilities recomputed. The fork is a value of its own: the task keeps its record.
\<close>

definition accessCreds :: "'fs env \<Rightarrow> Credentials \<Rightarrow> Credentials" where
  "accessCreds env c =
     (let c1 = c\<lparr>EffectiveKUID := RealKUID c\<rparr>;
          c2 = c1\<lparr>EffectiveKGID := RealKGID c1\<rparr>
      in if MapFromKUID env (UserNamespace c2) (EffectiveKUID c2) = RootUID
         then c2\<lparr>EffectiveCaps := PermittedCaps c2\<rparr>
         else c2\<lparr>EffectiveCaps := 0\<rparr>)"

definition accessAt :: "'fs env \<Rightarrow> int \<Rightarrow> nat \<Rightarrow> 64 word \<Rightarrow> 'fs task \<Rightarrow> (errno + unit) \<times> 'fs task" where
  "accessAt env dirFD addr mode t =
     (case copyInPath env addr False of
        Inl err \<Rightarrow> (Inl err, t)
      | Inr (path, dirPath) \<Rightarrow>
          if mode AND NOT (4 OR 2 OR 1) \<noteq> 0 then (Inl EINVAL, t)
          else
            fileOpOn env dirFD path True
              (\<lambda>root d rem t1.
                 case InodeCheckPermission env (fs t1) (accessCreds env (creds t1)) d
                        \<lparr>pm_Read = (mode AND 4 \<noteq> 0), pm_Write = (mode AND 2 \<noteq> 0),
                         pm_Execute = (mode AND 1 \<noteq> 0)\<rparr> of
                   Some err \<Rightarrow> (Inl err, t1)
                 | None \<Rightarrow> (Inr (), t1))
              t)"

section \<open>chown\<close>

definition HasSetUIDOrGID :: "FilePermissions \<Rightarrow> bool" where
  "HasSetUIDOrGID p = (fp_SetUID p \<or> fp_SetGID p)"

text \<open>
  The two ownership checks of \<open>chown\<close> (lines 1680 to 1724), each giving the error
  it returns, or whether it asks for the privilege bits to be cleared and the id to
  store.
\<close>

definition chown_uid :: "'fs env \<Rightarrow> Credentials \<Rightarrow> UnstableAttr \<Rightarrow> bool \<Rightarrow> bool \<Rightarrow> uid32
    \<Rightarrow> errno + (bool \<times> uid32)" where
  "chown_uid env c uattr hasCap isOwner uid =
     (if uid \<noteq> NoID then
        let kuid = MapToKUID env (UserNamespace c) uid in
        if \<not> kuid \<noteq> NoID then Inl EINVAL
        else
          let isNoop = (fo_UID (ua_Owner uattr) = kuid) in
          if \<not> (hasCap \<or> (isOwner \<and> isNoop)) then Inl EPERM
          else Inr (fo_UID (ua_Owner uattr) \<noteq> kuid, kuid)
      else Inr (False, NoID))"

definition chown_gid :: "'fs env \<Rightarrow> Credentials \<Rightarrow> UnstableAttr \<Rightarrow> bool \<Rightarrow> bool \<Rightarrow> uid32
    \<Rightarrow> errno + (bool \<times> uid32)" where
  "chown_gid env c uattr hasCap isOwner gid =
     (if gid \<noteq> NoID then
        let kgid = MapToKGID env (UserNamespace c) gid in
        if \<not> kgid \<noteq> NoID then Inl EINVAL
        else
          let isNoop = (fo_GID (ua_Owner uattr) = kgid);
              isMemberGroup = InGroup env c kgid
          in
          if \<not> (hasCap \<or> (isOwner \<and> (isNoop \<or> isMemberGroup))) then Inl EPERM
          else Inr (fo_GID (ua_Owner uattr) \<noteq> kgid, kgid)
      else Inr (False, NoID))"

definition chown :: "'fs env \<Rightarrow> nat \<Rightarrow> uid32 \<Rightarrow> uid32 \<Rightarrow> 'fs task \<Rightarrow> (errno + unit) \<times> 'fs task" where
  "chown env d uid gid t =
     (case InodeUnstableAttr env (fs t) d of
        Inl err \<Rightarrow> (Inl err, t)
      | Inr uattr \<Rightarrow>
          let c = creds t;
              hasCap = InodeCheckCapability env (fs t) c d CAP_CHOWN;
              isOwner = (fo_UID (ua_Owner uattr) = EffectiveKUID c)
          in
          (case chown_uid env c uattr hasCap isOwner uid of
             Inl err \<Rightarrow> (Inl err, t)
           | Inr (clearU, ownerUID) \<Rightarrow>
               (case chown_gid env c uattr hasCap isOwner gid of
                  Inl err \<Rightarrow> (Inl err, t)
                | Inr (clearG, ownerGID) \<Rightarrow>
                    (case InodeSetOwner env (fs t) d \<lparr>fo_UID = ownerUID, fo_GID = ownerGID\<rparr> of
                       (Some err, fs1) \<Rightarrow> (Inl err, t\<lparr>fs := fs1\<rparr>)
                     | (None, fs1) \<Rightarrow>
                         if (clearU \<or> clearG) \<and> HasSetUIDOrGID (ua_Perms uattr)
                            \<and> \<not> IsDir (StableAttrType env fs1 d)
                         then
                           (case InodeSetPermissions env fs1 d
                                   (DropSetUIDAndMaybeGID env (ua_Perms uattr)) of
                              (False, fs2) \<Rightarrow> (Inl EPERM, t\<lparr>fs := fs2\<rparr>)
                            | (True, fs2) \<Rightarrow> (Inr (), t\<lparr>fs := fs2\<rparr>))
                         else (Inr (), t\<lparr>fs := fs1\<rparr>)))))"

section \<open>open(2) with O_CREAT\<close>

text \<open>
  The closure of \<open>createAt\<close> (lines 318 to 461). Its loop rebinds \<open>parent\<close> and
  \<open>name\<close>, updates the budget, and defers releases that run when the closure
  returns; that state is the record \<open>walk\<close>. One pass of the loop body either
  returns an error from the closure, leaves the loop with \<open>err = nil\<close> and \<open>found\<close>
  set, leaves the loop with an error in \<open>err\<close>, or goes around again (\<open>None\<close>).
\<close>

record 'fs walk =
  w_parent :: nat
  w_name :: string
  w_rem :: nat
  w_defers :: "refobj list"
  w_task :: "'fs task"

datatype loopexit = Return errno | BreakFound nat | BreakErr errno

definition createAt_step :: "'fs env \<Rightarrow> 64 word \<Rightarrow> nat \<Rightarrow> 'fs walk \<Rightarrow> loopexit option \<times> 'fs walk" where
  "createAt_step env flags root w =
     (if \<not> IsDir (StableAttrType env (fs (w_task w)) (w_parent w)) then (Some (Return ENOTDIR), w)
      else
        case FindLink env root (Some (w_parent w)) (w_name w) (w_rem w) (w_task w) of
          (Inl err, rem1, t1) \<Rightarrow> (Some (BreakErr err), w\<lparr>w_rem := rem1, w_task := t1\<rparr>)
        | (Inr found, rem1, t1) \<Rightarrow>
            let w1 = w\<lparr>w_rem := rem1, w_defers := DirentRef found # w_defers w, w_task := t1\<rparr>
            in
            if flags AND O_EXCL \<noteq> 0 then (Some (Return EEXIST), w1)
            else if \<not> IsSymlink (StableAttrType env (fs t1) found) then (Some (BreakFound found), w1)
            else if flags AND O_NOFOLLOW \<noteq> 0 then (Some (Return ELOOP), w1)
            else
              (case InodeGetlink env (fs t1) found of
                 Inr resolved \<Rightarrow>
                   (Some (BreakFound found),
                    w1\<lparr>w_defers := DirentRef resolved # w_defers w1,
                       w_task := IncRef (DirentRef resolved) t1\<rparr>)
               | Inl err \<Rightarrow>
                   if err \<noteq> ErrResolveViaReadlink then (Some (Return err), w1)
                   else if rem1 = 0 then (Some (Return ELOOP), w1)
                   else
                     (case InodeReadlink env (fs t1) found of
                        Inl err \<Rightarrow> (Some (BreakErr err), w1)
                      | Inr path \<Rightarrow>
                          (case SplitLast env path of (newParentPath, newName) \<Rightarrow>
                             (case FindInode env root (Some (w_parent w)) newParentPath
                                     (rem1 - 1) t1 of
                                (Inl err, rem2, t2) \<Rightarrow>
                                  (Some (BreakErr err), w1\<lparr>w_rem := rem2, w_task := t2\<rparr>)
                              | (Inr newParent, rem2, t2) \<Rightarrow>
                                  (None,
                                   w1\<lparr>w_parent := newParent, w_name := newName, w_rem := rem2,
                                      w_defers := DirentRef newParent # w_defers w1,
                                      w_task := t2\<rparr>))))))"

text \<open>
  The \<open>for\<close> loop. Whether it ends depends on the backend (the lookups receive the
  budget by pointer), so the loop runs on fuel: one unit per pass, \<open>None\<close> when the
  fuel is used up before the loop is left.
\<close>

fun createAt_loop :: "nat \<Rightarrow> 'fs env \<Rightarrow> 64 word \<Rightarrow> nat \<Rightarrow> 'fs walk \<Rightarrow> (loopexit \<times> 'fs walk) option" where
  "createAt_loop 0 env flags root w = None"
| "createAt_loop (Suc n) env flags root w =
     (case createAt_step env flags root w of
        (None, w') \<Rightarrow> createAt_loop n env flags root w'
      | (Some out, w') \<Rightarrow> Some (out, w'))"

text \<open>The \<open>switch\<close> after the loop and the installation of the descriptor.\<close>

definition createAt_open :: "'fs env \<Rightarrow> 64 word \<Rightarrow> FileFlags \<Rightarrow> nat \<Rightarrow> 'fs walk
    \<Rightarrow> (errno + (nat \<times> File)) \<times> 'fs walk" where
  "createAt_open env flags fileFlags found w =
     (let t = w_task w in
      case InodeCheckPermission env (fs t) (creds t) found (flagsToPermissions env flags) of
        Some err \<Rightarrow> (Inl err, w)
      | None \<Rightarrow>
          (case (if flags AND O_TRUNC \<noteq> 0 then InodeTruncate env (fs t) found 0
                 else (None, fs t)) of
             (Some err, fs1) \<Rightarrow> (Inl err, w\<lparr>w_task := t\<lparr>fs := fs1\<rparr>\<rparr>)
           | (None, fs1) \<Rightarrow>
               (case InodeGetFile env fs1 found fileFlags of
                  (Inl err, fs2) \<Rightarrow>
                    (Inl (ConvertIntr env err ERESTARTSYS), w\<lparr>w_task := t\<lparr>fs := fs2\<rparr>\<rparr>)
                | (Inr newFile, fs2) \<Rightarrow>
                    (Inr (found, newFile),
                     w\<lparr>w_defers := FileRef (file_id newFile) # w_defers w,
                       w_task := IncRef (FileRef (file_id newFile)) (t\<lparr>fs := fs2\<rparr>)\<rparr>))))"

definition createAt_create :: "'fs env \<Rightarrow> 16 word \<Rightarrow> FileFlags \<Rightarrow> nat \<Rightarrow> 'fs walk
    \<Rightarrow> (errno + (nat \<times> File)) \<times> 'fs walk" where
  "createAt_create env mode fileFlags root w =
     (let t = w_task w in
      case InodeCheckPermission env (fs t) (creds t) (w_parent w)
             \<lparr>pm_Read = False, pm_Write = True, pm_Execute = True\<rparr> of
        Some err \<Rightarrow> (Inl err, w)
      | None \<Rightarrow>
          let perms = FilePermsFromMode env (mode AND NOT (ucast (fsumask t))) in
          (case DirentCreate env (fs t) (creds t) root (w_parent w) (w_name w) fileFlags perms of
             (Inl err, fs1) \<Rightarrow> (Inl err, w\<lparr>w_task := t\<lparr>fs := fs1\<rparr>\<rparr>)
           | (Inr newFile, fs1) \<Rightarrow>
               (Inr (file_Dirent newFile, newFile),
                w\<lparr>w_defers := FileRef (file_id newFile) # w_defers w,
                  w_task := IncRef (FileRef (file_id newFile)) (t\<lparr>fs := fs1\<rparr>)\<rparr>)))"

definition createAt_finish :: "'fs env \<Rightarrow> 64 word \<Rightarrow> 16 word \<Rightarrow> FileFlags \<Rightarrow> nat
    \<Rightarrow> loopexit \<times> 'fs walk \<Rightarrow> (errno + int) \<times> 'fs walk" where
  "createAt_finish env flags mode fileFlags root ow =
     (case ow of (out, w) \<Rightarrow>
        (case (case out of
                 Return err \<Rightarrow> (Inl err, w)
               | BreakFound found \<Rightarrow> createAt_open env flags fileFlags found w
               | BreakErr err \<Rightarrow>
                   if err = ENOENT then createAt_create env mode fileFlags root w
                   else (Inl err, w)) of
           (Inl err, w1) \<Rightarrow> (Inl err, w1)
         | (Inr (found, newFile), w1) \<Rightarrow>
             (case installFD env flags newFile (w_task w1) of
                (Inl err, t2) \<Rightarrow> (Inl err, w1\<lparr>w_task := t2\<rparr>)
              | (Inr newFD, t2) \<Rightarrow>
                  (Inr newFD, w1\<lparr>w_task := InotifyEvent found IN_OPEN t2\<rparr>))))"

definition run_defers :: "refobj list \<Rightarrow> 'fs task \<Rightarrow> 'fs task" where
  "run_defers ds t = fold DecRef ds t"

text \<open>
  The closure: the loop, the switch, then the deferred releases, last deferred
  first. \<open>Inr None\<close> stands for a loop that the fuel did not see end.
\<close>

definition createAt_fn :: "nat \<Rightarrow> 'fs env \<Rightarrow> 64 word \<Rightarrow> 16 word \<Rightarrow> FileFlags
    \<Rightarrow> nat \<Rightarrow> nat \<Rightarrow> string \<Rightarrow> nat \<Rightarrow> 'fs task \<Rightarrow> (errno + int option) \<times> 'fs task" where
  "createAt_fn fuel env flags mode fileFlags root parent name rem t =
     (case createAt_loop fuel env flags root
             \<lparr>w_parent = parent, w_name = name, w_rem = rem, w_defers = [], w_task = t\<rparr> of
        None \<Rightarrow> (Inr None, t)
      | Some ow \<Rightarrow>
          (case createAt_finish env flags mode fileFlags root ow of
             (Inl err, w) \<Rightarrow> (Inl err, run_defers (w_defers w) (w_task w))
           | (Inr newFD, w) \<Rightarrow> (Inr (Some newFD), run_defers (w_defers w) (w_task w))))"

definition createAt :: "nat \<Rightarrow> 'fs env \<Rightarrow> int \<Rightarrow> nat \<Rightarrow> 64 word \<Rightarrow> 16 word \<Rightarrow> 'fs task
    \<Rightarrow> ((errno + int) \<times> 'fs task) option" where
  "createAt fuel env dirFD addr flags mode t =
     (case copyInPath env addr False of
        Inl err \<Rightarrow> Some (Inl err, t)
      | Inr (path, dirPath) \<Rightarrow>
          if dirPath then Some (Inl ENOENT, t)
          else
            let fileFlags = (linuxToFlags env flags)\<lparr>ff_LargeFile := True\<rparr> in
            (case fileOpAt env dirFD path (createAt_fn fuel env flags mode fileFlags) t of
               (Inl err, t') \<Rightarrow> Some (Inl err, t')
             | (Inr None, t') \<Rightarrow> None
             | (Inr (Some newFD), t') \<Rightarrow> Some (Inr newFD, t')))"

section \<open>Reference bookkeeping\<close>

text \<open>The references taken and the references released in a stretch of the log.\<close>

fun acquired :: "refevent list \<Rightarrow> refobj multiset" where
  "acquired [] = {#}"
| "acquired (Acquire x # es) = add_mset x (acquired es)"
| "acquired (Release x # es) = acquired es"

fun released :: "refevent list \<Rightarrow> refobj multiset" where
  "released [] = {#}"
| "released (Acquire x # es) = released es"
| "released (Release x # es) = add_mset x (released es)"

text \<open>The lookup \<open>fileOpOn\<close> asks of the mount namespace, from the task's root.\<close>

definition lookup :: "'fs env \<Rightarrow> bool \<Rightarrow> 'fs task \<Rightarrow> nat option \<Rightarrow> string \<Rightarrow> (errno + nat) \<times> nat" where
  "lookup env resolve t rel path =
     (if resolve
      then MountFindInode env (fs t) (creds t) (fsroot t) rel path MaxSymlinkTraversals
      else MountFindLink env (fs t) (creds t) (fsroot t) rel path MaxSymlinkTraversals)"

section \<open>A small backend\<close>

text \<open>
  A backend to run the layer on: directory entries by (parent, name), inode types,
  link texts, attributes, sizes, the dirents whose permission check refuses, and
  the next free identity. Its lookups walk a single name from the starting
  directory (\<open>.\<close> and the empty name are the directory itself) and leave the
  budget alone; its symlinks resolve through their text only.
\<close>

record tinyfs =
  tf_names :: "((nat \<times> string) \<times> nat) list"
  tf_types :: "(nat \<times> InodeType) list"
  tf_links :: "(nat \<times> string) list"
  tf_attrs :: "(nat \<times> UnstableAttr) list"
  tf_sizes :: "(nat \<times> 64 word) list"
  tf_denied :: "nat list"
  tf_next :: nat

definition tiny_type :: "tinyfs \<Rightarrow> nat \<Rightarrow> InodeType" where
  "tiny_type f d = (case map_of (tf_types f) d of None \<Rightarrow> Regular | Some ty \<Rightarrow> ty)"

definition tiny_find :: "tinyfs \<Rightarrow> Credentials \<Rightarrow> nat \<Rightarrow> nat option \<Rightarrow> string \<Rightarrow> nat
    \<Rightarrow> (errno + nat) \<times> nat" where
  "tiny_find f c root rel path rem =
     (let start = (if path \<noteq> [] \<and> hd path = CHR ''/'' then root
                   else case rel of None \<Rightarrow> root | Some r \<Rightarrow> r);
          name = (if path \<noteq> [] \<and> hd path = CHR ''/'' then tl path else path)
      in if name = [] \<or> name = ''.'' then (Inr start, rem)
         else case map_of (tf_names f) (start, name) of
           None \<Rightarrow> (Inl ENOENT, rem)
         | Some d \<Rightarrow> (Inr d, rem))"

definition tiny_SplitLast :: "string \<Rightarrow> string \<times> string" where
  "tiny_SplitLast p =
     (if p = ''/'' then (''/'', [])
      else if CHR ''/'' \<notin> set p then (''.'', p)
      else
        let r = rev p;
            base = rev (takeWhile (\<lambda>c. c \<noteq> CHR ''/'') r);
            dir = rev (tl (dropWhile (\<lambda>c. c \<noteq> CHR ''/'') r))
        in (if dir = [] then ''/'' else dir, base))"

definition tiny_Trim :: "string \<Rightarrow> string \<times> bool" where
  "tiny_Trim p =
     (if p \<noteq> [] \<and> p \<noteq> ''/'' \<and> last p = CHR ''/'' then (butlast p, True) else (p, False))"

definition tiny_Readlink :: "tinyfs \<Rightarrow> nat \<Rightarrow> errno + string" where
  "tiny_Readlink f d = (case map_of (tf_links f) d of None \<Rightarrow> Inl ENOLINK | Some s \<Rightarrow> Inr s)"

definition tiny_CheckPermission :: "tinyfs \<Rightarrow> Credentials \<Rightarrow> nat \<Rightarrow> PermMask \<Rightarrow> errno option" where
  "tiny_CheckPermission f c d m = (if d \<in> set (tf_denied f) then Some EACCES else None)"

definition tiny_Create :: "tinyfs \<Rightarrow> Credentials \<Rightarrow> nat \<Rightarrow> nat \<Rightarrow> string \<Rightarrow> FileFlags
    \<Rightarrow> FilePermissions \<Rightarrow> (errno + File) \<times> tinyfs" where
  "tiny_Create f c root parent name flags perms =
     (case map_of (tf_names f) (parent, name) of
        Some d \<Rightarrow> (Inl EEXIST, f)
      | None \<Rightarrow>
          (Inr \<lparr>file_id = Suc (tf_next f), file_Dirent = tf_next f, file_Flags = flags\<rparr>,
           f\<lparr>tf_names := ((parent, name), tf_next f) # tf_names f,
             tf_types := (tf_next f, Regular) # tf_types f,
             tf_next := Suc (Suc (tf_next f))\<rparr>))"

definition tiny_GetFile :: "tinyfs \<Rightarrow> nat \<Rightarrow> FileFlags \<Rightarrow> (errno + File) \<times> tinyfs" where
  "tiny_GetFile f d flags =
     (Inr \<lparr>file_id = tf_next f, file_Dirent = d, file_Flags = flags\<rparr>,
      f\<lparr>tf_next := Suc (tf_next f)\<rparr>)"

definition tiny_Truncate :: "tinyfs \<Rightarrow> nat \<Rightarrow> 64 word \<Rightarrow> errno option \<times> tinyfs" where
  "tiny_Truncate f d n = (None, f\<lparr>tf_sizes := (d, n) # tf_sizes f\<rparr>)"

definition tiny_Allocate :: "tinyfs \<Rightarrow> nat \<Rightarrow> 64 word \<Rightarrow> 64 word \<Rightarrow> errno option \<times> tinyfs" where
  "tiny_Allocate f d off n = (None, f\<lparr>tf_sizes := (d, off + n) # tf_sizes f\<rparr>)"

definition tiny_UnstableAttr :: "tinyfs \<Rightarrow> nat \<Rightarrow> errno + UnstableAttr" where
  "tiny_UnstableAttr f d = (case map_of (tf_attrs f) d of None \<Rightarrow> Inl EIO | Some a \<Rightarrow> Inr a)"

definition tiny_SetOwner :: "tinyfs \<Rightarrow> nat \<Rightarrow> FileOwner \<Rightarrow> errno option \<times> tinyfs" where
  "tiny_SetOwner f d ow =
     (case map_of (tf_attrs f) d of
        None \<Rightarrow> (Some EIO, f)
      | Some a \<Rightarrow>
          (None,
           f\<lparr>tf_attrs :=
               (d, a\<lparr>ua_Owner :=
                      \<lparr>fo_UID = (if fo_UID ow = NoID then fo_UID (ua_Owner a) else fo_UID ow),
                       fo_GID = (if fo_GID ow = NoID then fo_GID (ua_Owner a) else fo_GID ow)\<rparr>\<rparr>)
               # tf_attrs f\<rparr>))"

definition tiny_SetPermissions :: "tinyfs \<Rightarrow> nat \<Rightarrow> FilePermissions \<Rightarrow> bool \<times> tinyfs" where
  "tiny_SetPermissions f d p =
     (case map_of (tf_attrs f) d of
        None \<Rightarrow> (False, f)
      | Some a \<Rightarrow> (True, f\<lparr>tf_attrs := (d, a\<lparr>ua_Perms := p\<rparr>) # tf_attrs f\<rparr>))"

definition tiny_Drop :: "FilePermissions \<Rightarrow> FilePermissions" where
  "tiny_Drop p =
     (let p1 = p\<lparr>fp_SetUID := False\<rparr>
      in if pm_Execute (fp_Group p1) then p1\<lparr>fp_SetGID := False\<rparr> else p1)"

definition tiny_PermsFromMode :: "16 word \<Rightarrow> FilePermissions" where
  "tiny_PermsFromMode m =
     \<lparr>fp_User = \<lparr>pm_Read = bit m 8, pm_Write = bit m 7, pm_Execute = bit m 6\<rparr>,
      fp_Group = \<lparr>pm_Read = bit m 5, pm_Write = bit m 4, pm_Execute = bit m 3\<rparr>,
      fp_Other = \<lparr>pm_Read = bit m 2, pm_Write = bit m 1, pm_Execute = bit m 0\<rparr>,
      fp_Sticky = bit m 9, fp_SetUID = bit m 11, fp_SetGID = bit m 10\<rparr>"

definition tiny_linuxToFlags :: "64 word \<Rightarrow> FileFlags" where
  "tiny_linuxToFlags m =
     \<lparr>ff_Read = (m AND 3 \<noteq> 1), ff_Write = (m AND 3 \<noteq> 0),
      ff_Directory = (m AND 0x10000 \<noteq> 0), ff_LargeFile = (m AND 0x8000 \<noteq> 0)\<rparr>"

definition tiny_flagsToPermissions :: "64 word \<Rightarrow> PermMask" where
  "tiny_flagsToPermissions m =
     \<lparr>pm_Read = (m AND 3 = 0 \<or> m AND 3 = 2),
      pm_Write = (m AND O_TRUNC \<noteq> 0 \<or> m AND 3 = 1 \<or> m AND 3 = 2),
      pm_Execute = False\<rparr>"

definition tiny_NewFDFrom :: "(int \<Rightarrow> File option) \<Rightarrow> int \<Rightarrow> errno + int" where
  "tiny_NewFDFrom tbl hint =
     (if tbl hint = None then Inr hint
      else if tbl (hint + 1) = None then Inr (hint + 1)
      else Inl EMFILE)"

definition tiny_env :: "(nat \<Rightarrow> string) \<Rightarrow> tinyfs env" where
  "tiny_env mem =
     \<lparr>CopyInString = (\<lambda>addr n. if length (mem addr) < n then Inr (mem addr) else Inl ENAMETOOLONG),
      TrimTrailingSlashes = tiny_Trim,
      SplitLast = tiny_SplitLast,
      MountFindInode = tiny_find,
      MountFindLink = tiny_find,
      StableAttrType = tiny_type,
      InodeCheckPermission = tiny_CheckPermission,
      InodeCheckCapability = (\<lambda>f c d cap. bit (EffectiveCaps c) cap),
      InodeGetlink = (\<lambda>f d. Inl ErrResolveViaReadlink),
      InodeReadlink = tiny_Readlink,
      InodeGetFile = tiny_GetFile,
      InodeTruncate = tiny_Truncate,
      InodeAllocate = tiny_Allocate,
      InodeUnstableAttr = tiny_UnstableAttr,
      InodeSetOwner = tiny_SetOwner,
      InodeSetPermissions = tiny_SetPermissions,
      DirentCreate = tiny_Create,
      DropSetUIDAndMaybeGID = tiny_Drop,
      FilePermsFromMode = tiny_PermsFromMode,
      linuxToFlags = tiny_linuxToFlags,
      flagsToPermissions = tiny_flagsToPermissions,
      NewFDFrom = tiny_NewFDFrom,
      ConvertIntr = (\<lambda>err intr. if err = ErrInterrupted then intr else err),
      MapToKUID = (\<lambda>ns u. u),
      MapToKGID = (\<lambda>ns g. g),
      MapFromKUID = (\<lambda>ns u. u),
      InGroup = (\<lambda>c g. g = EffectiveKGID c)\<rparr>"

definition tiny_creds :: "uid32 \<Rightarrow> 64 word \<Rightarrow> Credentials" where
  "tiny_creds u caps =
     \<lparr>RealKUID = u, EffectiveKUID = u, RealKGID = u, EffectiveKGID = u,
      PermittedCaps = caps, EffectiveCaps = caps, UserNamespace = 0\<rparr>"

text \<open>
  A task on it: root is dirent 0 and the working directory dirent 1, each held
  once by the FSContext; no descriptor is open.
\<close>

definition tiny_task :: "tinyfs \<Rightarrow> Credentials \<Rightarrow> tinyfs task" where
  "tiny_task f c =
     \<lparr>fs = f,
      refs = (\<lambda>x. if x = DirentRef 0 \<or> x = DirentRef 1 then 1 else 0),
      reflog = [],
      fsroot = 0, fscwd = 1, fsumask = 18,
      fdtable = (\<lambda>fd. None), cloexec = (\<lambda>fd. False),
      creds = c, FileSizeCur = 4096,
      signals = [], inotify = [], unimplemented = 0\<rparr>"

definition tiny_dirs :: tinyfs where
  "tiny_dirs =
     \<lparr>tf_names = [((0, ''home''), 1)],
      tf_types = [(0, Directory), (1, Directory)],
      tf_links = [], tf_attrs = [], tf_sizes = [], tf_denied = [], tf_next = 2\<rparr>"

definition tiny_file :: File where
  "tiny_file =
     \<lparr>file_id = 7, file_Dirent = 5,
      file_Flags = \<lparr>ff_Read = True, ff_Write = True, ff_Directory = False, ff_LargeFile = True\<rparr>\<rparr>"

text \<open>The same task with descriptor 3 open, read-write, on the regular file 5.\<close>

definition tiny_open :: "tinyfs task" where
  "tiny_open =
     (tiny_task tiny_dirs (tiny_creds 1000 0))
       \<lparr>fdtable := (\<lambda>fd. if fd = 3 then Some tiny_file else None)\<rparr>"

text \<open>A closure that does nothing and succeeds.\<close>

definition tiny_ok :: "nat \<Rightarrow> nat \<Rightarrow> nat \<Rightarrow> tinyfs task \<Rightarrow> (errno + unit) \<times> tinyfs task" where
  "tiny_ok root d rem t = (Inr (), t)"

text \<open>
  Tasks and backends of the worked examples: the path \<open>/home\<close> in user memory; a
  user task; the same with the permission check on \<open>/home\<close> refusing; a task
  running set-uid root (real uid 1000, effective uid 0) on a backend whose
  permission check lets only the effective uid 0 through.
\<close>

definition tiny_home :: "tinyfs env" where
  "tiny_home = tiny_env (\<lambda>a. ''/home'')"

definition tiny_user :: "tinyfs task" where
  "tiny_user = tiny_task tiny_dirs (tiny_creds 1000 0)"

definition tiny_user_denied :: "tinyfs task" where
  "tiny_user_denied = tiny_task (tiny_dirs\<lparr>tf_denied := [1]\<rparr>) (tiny_creds 1000 0)"

definition tiny_suid :: "tinyfs task" where
  "tiny_suid =
     tiny_task tiny_dirs
       ((tiny_creds 1000 255)\<lparr>EffectiveKUID := 0, EffectiveKGID := 0\<rparr>)"

definition tiny_rootonly :: "tinyfs env" where
  "tiny_rootonly =
     tiny_home\<lparr>InodeCheckPermission :=
       (\<lambda>f c d m. if EffectiveKUID c = 0 then None else Some EACCES)\<rparr>"

text \<open>
  A set-uid file (dirent 5, owner 1000) for the chown examples, and a backend
  whose inodes refuse \<open>SetPermissions\<close>.
\<close>

definition tiny_suid_perms :: FilePermissions where
  "tiny_suid_perms =
     \<lparr>fp_User = \<lparr>pm_Read = True, pm_Write = True, pm_Execute = True\<rparr>,
      fp_Group = \<lparr>pm_Read = True, pm_Write = False, pm_Execute = True\<rparr>,
      fp_Other = \<lparr>pm_Read = True, pm_Write = False, pm_Execute = True\<rparr>,
      fp_Sticky = False, fp_SetUID = True, fp_SetGID = False\<rparr>"

definition tiny_attr :: UnstableAttr where
  "tiny_attr = \<lparr>ua_Owner = \<lparr>fo_UID = 1000, fo_GID = 1000\<rparr>, ua_Perms = tiny_suid_perms\<rparr>"

definition tiny_owned :: tinyfs where
  "tiny_owned = tiny_dirs\<lparr>tf_attrs := [(5, tiny_attr)]\<rparr>"

definition tiny_noperm :: "tinyfs env" where
  "tiny_noperm = tiny_home\<lparr>InodeSetPermissions := (\<lambda>f d p. (False, f))\<rparr>"

section \<open>The parent resolver, up to its closure\<close>

text \<open>
  What \<open>fileOpAt\<close> hands to its closure on each of its three paths (root, parent,
  name, budget, task), with the references it releases after the closure returns,
  in the order of release; or the error of \<open>fileOpOn\<close> on the parent path.
\<close>

definition fileOpAt_resolve :: "'fs env \<Rightarrow> int \<Rightarrow> string \<Rightarrow> 'fs task
    \<Rightarrow> (errno \<times> 'fs task) + (nat \<times> nat \<times> string \<times> nat \<times> 'fs task \<times> refobj list)" where
  "fileOpAt_resolve env dirFD path t =
     (case SplitLast env path of (dir, name) \<Rightarrow>
        if dir = ''/'' then
          Inr (fsroot t, fsroot t, name, MaxSymlinkTraversals,
               IncRef (DirentRef (fsroot t)) t, [DirentRef (fsroot t)])
        else if dir = ''.'' \<and> dirFD = AT_FDCWD then
          Inr (fsroot t, fscwd t, name, MaxSymlinkTraversals,
               IncRef (DirentRef (fsroot t)) (IncRef (DirentRef (fscwd t)) t),
               [DirentRef (fscwd t), DirentRef (fsroot t)])
        else
          (case fileOpOn_resolve env dirFD dir True t of
             Inl bad \<Rightarrow> Inl bad
           | Inr (root, d, rem, t1) \<Rightarrow> Inr (root, d, name, rem, t1, [DirentRef d])))"

text \<open>
  The lookups never hand back a larger budget than they were given (they only
  spend it on the symlinks they follow).
\<close>

definition budget_monotone :: "'fs env \<Rightarrow> bool" where
  "budget_monotone env =
     (\<forall>f c root rel path rem.
        snd (MountFindInode env f c root rel path rem) \<le> rem
        \<and> snd (MountFindLink env f c root rel path rem) \<le> rem)"

text \<open>The number of times the loop of \<open>createAt\<close> goes around again (within the fuel).\<close>

fun createAt_hops :: "nat \<Rightarrow> 'fs env \<Rightarrow> 64 word \<Rightarrow> nat \<Rightarrow> 'fs walk \<Rightarrow> nat" where
  "createAt_hops 0 env flags root w = 0"
| "createAt_hops (Suc n) env flags root w =
     (case createAt_step env flags root w of
        (None, w') \<Rightarrow> Suc (createAt_hops n env flags root w')
      | (Some out, w') \<Rightarrow> 0)"

text \<open>
  A directory with two symlinks, \<open>l1\<close> with text \<open>l2\<close> and \<open>l2\<close> with text \<open>f\<close>,
  where no \<open>f\<close> exists; the paths \<open>l1\<close> and \<open>l2\<close> in user memory; the same
  directory refusing its permission check; and a third link \<open>l3\<close> whose text
  \<open>d/f\<close> names a directory that does not exist.
\<close>

definition tiny_links :: tinyfs where
  "tiny_links =
     \<lparr>tf_names = [((0, ''home''), 1), ((1, ''l1''), 2), ((1, ''l2''), 3)],
      tf_types = [(0, Directory), (1, Directory), (2, Symlink), (3, Symlink)],
      tf_links = [(2, ''l2''), (3, ''f'')],
      tf_attrs = [], tf_sizes = [], tf_denied = [], tf_next = 4\<rparr>"

definition tiny_l1 :: "tinyfs env" where
  "tiny_l1 = tiny_env (\<lambda>a. ''l1'')"

definition tiny_linked :: "tinyfs task" where
  "tiny_linked = tiny_task tiny_links (tiny_creds 1000 0)"

definition tiny_walk :: "tinyfs walk" where
  "tiny_walk =
     \<lparr>w_parent = 1, w_name = ''l1'', w_rem = 40, w_defers = [], w_task = tiny_linked\<rparr>"

definition tiny_l2 :: "tinyfs env" where
  "tiny_l2 = tiny_env (\<lambda>a. ''l2'')"

definition tiny_linked_denied :: "tinyfs task" where
  "tiny_linked_denied = tiny_task (tiny_links\<lparr>tf_denied := [1]\<rparr>) (tiny_creds 1000 0)"

definition tiny_nodir :: tinyfs where
  "tiny_nodir =
     tiny_links\<lparr>tf_names := ((1, ''l3''), 5) # tf_names tiny_links,
                tf_types := (5, Symlink) # tf_types tiny_links,
                tf_links := (5, ''d/f'') # tf_links tiny_links,
                tf_next := 6\<rparr>"


section \<open>Size limits: truncate(2) and fallocate(2)\<close>

text \<open>
  C8, as amended. A \<open>truncate\<close> call whose length is non-negative and at or above
  the file-size limit always fails and never changes the backend's state; the
  lookups and the inode's \<open>Truncate\<close> are not consulted (the call is the same
  whatever they are). When the path was copied in (non-empty) and has no trailing
  slash, the call sends SIGXFSZ (code SI_USER) and fails with EFBIG. A copy-in
  error (the error of \<open>CopyInString\<close>, or ENOENT for the empty path) and EINVAL for
  a trailing slash come first: the call returns that error and leaves the task as
  it was, so that no signal is sent.
\<close>

theorem Truncate_over_limit:
  "0 \<le> sint len \<and> FileSizeCur t \<le> len \<longrightarrow>
      (\<exists>err. fst (Truncate env addr len t) = Inl err)
      \<and> fs (snd (Truncate env addr len t)) = fs t
      \<and> (\<forall>fi fl tr. Truncate (env\<lparr>MountFindInode := fi, MountFindLink := fl,
                                InodeTruncate := tr\<rparr>) addr len t
                    = Truncate env addr len t)
      \<and> (copyInPath env addr False = Inr (path, False)
          \<longrightarrow> Truncate env addr len t
              = (Inl EFBIG, SendSignal \<lparr>Signo = SIGXFSZ, Code = SI_USER\<rparr> t))
      \<and> (CopyInString env addr PATH_MAX = Inl err \<longrightarrow> Truncate env addr len t = (Inl err, t))
      \<and> (CopyInString env addr PATH_MAX = Inr [] \<longrightarrow> Truncate env addr len t = (Inl ENOENT, t))
      \<and> (copyInPath env addr False = Inl err \<longrightarrow> Truncate env addr len t = (Inl err, t))
      \<and> (copyInPath env addr False = Inr (path, True)
          \<longrightarrow> Truncate env addr len t = (Inl EINVAL, t))"
  by (auto simp: Truncate_def copyInPath_def SendSignal_def split: sum.splits prod.splits)

theorem Truncate_over_limit_witness:
  "0 \<le> sint (5000 :: 64 word) \<and> FileSizeCur (tiny_task tiny_dirs (tiny_creds 1000 0)) \<le> 5000
   \<and> copyInPath (tiny_env (\<lambda>a. ''/home'')) 0 False = Inr (''/home'', False)
   \<and> Truncate (tiny_env (\<lambda>a. ''/home'')) 0 5000 (tiny_task tiny_dirs (tiny_creds 1000 0))
       = (Inl EFBIG,
          SendSignal \<lparr>Signo = SIGXFSZ, Code = SI_USER\<rparr> (tiny_task tiny_dirs (tiny_creds 1000 0)))
   \<and> fs (snd (Truncate (tiny_env (\<lambda>a. ''/home'')) 0 5000
                (tiny_task tiny_dirs (tiny_creds 1000 0)))) = tiny_dirs
   \<and> copyInPath (tiny_env (\<lambda>a. ''/home/'')) 0 False = Inr (''/home'', True)
   \<and> Truncate (tiny_env (\<lambda>a. ''/home/'')) 0 5000 (tiny_task tiny_dirs (tiny_creds 1000 0))
       = (Inl EINVAL, tiny_task tiny_dirs (tiny_creds 1000 0))
   \<and> CopyInString (tiny_env (\<lambda>a. [])) 0 PATH_MAX = Inr []
   \<and> copyInPath (tiny_env (\<lambda>a. [])) 0 False = Inl ENOENT
   \<and> Truncate (tiny_env (\<lambda>a. [])) 0 5000 (tiny_task tiny_dirs (tiny_creds 1000 0))
       = (Inl ENOENT, tiny_task tiny_dirs (tiny_creds 1000 0))
   \<and> CopyInString ((tiny_env (\<lambda>a. []))\<lparr>CopyInString := (\<lambda>a n. Inl EFAULT)\<rparr>) 0 PATH_MAX
       = Inl EFAULT
   \<and> Truncate ((tiny_env (\<lambda>a. []))\<lparr>CopyInString := (\<lambda>a n. Inl EFAULT)\<rparr>) 0 5000
        (tiny_task tiny_dirs (tiny_creds 1000 0))
       = (Inl EFAULT, tiny_task tiny_dirs (tiny_creds 1000 0))"
  using Truncate_over_limit [of 5000 "tiny_task tiny_dirs (tiny_creds 1000 0)"
      "tiny_env (\<lambda>a. ''/home'')" 0 "''/home''"]
    Truncate_over_limit [where len = 5000 and t = "tiny_task tiny_dirs (tiny_creds 1000 0)"
      and env = "tiny_env (\<lambda>a. ''/home/'')" and addr = 0 and path = "''/home''"]
    Truncate_over_limit [where len = 5000 and t = "tiny_task tiny_dirs (tiny_creds 1000 0)"
      and env = "tiny_env (\<lambda>a. [])" and addr = 0 and err = ENOENT]
    Truncate_over_limit [where len = 5000 and t = "tiny_task tiny_dirs (tiny_creds 1000 0)"
      and env = "(tiny_env (\<lambda>a. []))\<lparr>CopyInString := (\<lambda>a n. Inl EFAULT)\<rparr>"
      and addr = 0 and err = EFAULT]
  by (simp add: Truncate_def SendSignal_def tiny_task_def tiny_env_def copyInPath_def
      PATH_MAX_def tiny_Trim_def)

text \<open>
  The claim as stated fails for the empty path: the length is over the limit, and
  the call fails with ENOENT and sends no signal.
\<close>

theorem Truncate_over_limit_counterexample:
  "0 \<le> sint (5000 :: 64 word) \<and> FileSizeCur (tiny_task tiny_dirs (tiny_creds 1000 0)) \<le> 5000
   \<and> Truncate (tiny_env (\<lambda>a. [])) 0 5000 (tiny_task tiny_dirs (tiny_creds 1000 0))
       = (Inl ENOENT, tiny_task tiny_dirs (tiny_creds 1000 0))
   \<and> signals (tiny_task tiny_dirs (tiny_creds 1000 0)) = []"
  by (simp add: Truncate_def tiny_task_def tiny_env_def copyInPath_def PATH_MAX_def)

text \<open>
  C10, as amended. A \<open>fallocate\<close> call with \<open>offset \<ge> 0\<close> and \<open>length > 0\<close> whose sum
  wraps to a negative 64-bit value always fails, sends no signal, leaves the
  backend's state alone and does not consult \<open>Allocate\<close>. Its error is the first
  of: EBADF for a descriptor that is not open, ENOTSUP for a mode other than 0,
  EBADF for a descriptor not open for writing, ESPIPE for a pipe, EISDIR for a
  directory, ENODEV for any other file that is not regular, and EFBIG otherwise
  (an open, writable descriptor of a regular file, with the mode 0). In range and
  at or over the limit, the call on such a descriptor with the mode 0 fails with
  EFBIG and sends SIGXFSZ.
\<close>

theorem Fallocate_size_overflow:
  "(0 \<le> sint offset \<and> 0 < sint len \<and> sint (offset + len) < 0 \<longrightarrow>
      (\<exists>err. fst (Fallocate env fd mode offset len t) = Inl err)
      \<and> signals (snd (Fallocate env fd mode offset len t)) = signals t
      \<and> fs (snd (Fallocate env fd mode offset len t)) = fs t
      \<and> (\<forall>alloc. Fallocate (env\<lparr>InodeAllocate := alloc\<rparr>) fd mode offset len t
                  = Fallocate env fd mode offset len t)
      \<and> (fdtable t fd = Some f \<and> mode = 0 \<and> ff_Write (file_Flags f)
           \<and> StableAttrType env (fs t) (file_Dirent f) = Regular
          \<longrightarrow> fst (Fallocate env fd mode offset len t) = Inl EFBIG)
      \<and> fst (Fallocate env fd mode offset len t)
          = (case fdtable t fd of
               None \<Rightarrow> Inl EBADF
             | Some g \<Rightarrow>
                 if mode \<noteq> 0 then Inl ENOTSUP
                 else if \<not> ff_Write (file_Flags g) then Inl EBADF
                 else if StableAttrType env (fs t) (file_Dirent g) = Fifo then Inl ESPIPE
                 else if StableAttrType env (fs t) (file_Dirent g) = Directory then Inl EISDIR
                 else if StableAttrType env (fs t) (file_Dirent g) \<noteq> Regular then Inl ENODEV
                 else Inl EFBIG))
   \<and> (0 \<le> sint offset \<and> 0 < sint len \<and> \<not> sint (offset + len) < 0
        \<and> FileSizeCur t \<le> offset + len
        \<and> fdtable t fd = Some f \<and> mode = 0 \<and> ff_Write (file_Flags f)
        \<and> StableAttrType env (fs t) (file_Dirent f) = Regular
       \<longrightarrow> fst (Fallocate env fd mode offset len t) = Inl EFBIG
           \<and> signals (snd (Fallocate env fd mode offset len t))
               = signals t @ [\<lparr>Signo = SIGXFSZ, Code = SI_USER\<rparr>])"
  by (auto simp: Fallocate_def Fallocate_body_def GetFile_def IncRef_def DecRef_def
        SendSignal_def IsPipe_def IsDir_def IsRegular_def Let_def
      split: option.splits prod.splits)

theorem Fallocate_size_overflow_witness:
  "0 \<le> sint (0x7FFFFFFFFFFFFFFF :: 64 word) \<and> 0 < sint (1 :: 64 word)
   \<and> sint (0x7FFFFFFFFFFFFFFF + 1 :: 64 word) < 0
   \<and> fdtable tiny_open 3 = Some tiny_file \<and> ff_Write (file_Flags tiny_file)
   \<and> StableAttrType (tiny_env (\<lambda>a. [])) (fs tiny_open) (file_Dirent tiny_file) = Regular
   \<and> fst (Fallocate (tiny_env (\<lambda>a. [])) 3 0 0x7FFFFFFFFFFFFFFF 1 tiny_open) = Inl EFBIG
   \<and> signals (snd (Fallocate (tiny_env (\<lambda>a. [])) 3 0 0x7FFFFFFFFFFFFFFF 1 tiny_open)) = []
   \<and> fs (snd (Fallocate (tiny_env (\<lambda>a. [])) 3 0 0x7FFFFFFFFFFFFFFF 1 tiny_open)) = tiny_dirs
   \<and> fst (Fallocate (tiny_env (\<lambda>a. [])) 3 1 0x7FFFFFFFFFFFFFFF 1 tiny_open) = Inl ENOTSUP
   \<and> fdtable tiny_open 4 = None
   \<and> fst (Fallocate (tiny_env (\<lambda>a. [])) 4 0 0x7FFFFFFFFFFFFFFF 1 tiny_open) = Inl EBADF
   \<and> StableAttrType ((tiny_env (\<lambda>a. []))\<lparr>StableAttrType := (\<lambda>f d. Fifo)\<rparr>) (fs tiny_open)
        (file_Dirent tiny_file) = Fifo
   \<and> fst (Fallocate ((tiny_env (\<lambda>a. []))\<lparr>StableAttrType := (\<lambda>f d. Fifo)\<rparr>) 3 0
             0x7FFFFFFFFFFFFFFF 1 tiny_open) = Inl ESPIPE
   \<and> fst (Fallocate ((tiny_env (\<lambda>a. []))\<lparr>StableAttrType := (\<lambda>f d. Directory)\<rparr>) 3 0
             0x7FFFFFFFFFFFFFFF 1 tiny_open) = Inl EISDIR
   \<and> fst (Fallocate ((tiny_env (\<lambda>a. []))\<lparr>StableAttrType := (\<lambda>f d. Socket)\<rparr>) 3 0
             0x7FFFFFFFFFFFFFFF 1 tiny_open) = Inl ENODEV
   \<and> \<not> sint (4000 + 96 :: 64 word) < 0 \<and> FileSizeCur tiny_open \<le> 4000 + 96
   \<and> fst (Fallocate (tiny_env (\<lambda>a. [])) 3 0 4000 96 tiny_open) = Inl EFBIG
   \<and> signals (snd (Fallocate (tiny_env (\<lambda>a. [])) 3 0 4000 96 tiny_open))
        = [\<lparr>Signo = SIGXFSZ, Code = SI_USER\<rparr>]"
  using Fallocate_size_overflow [of "0x7FFFFFFFFFFFFFFF" 1 "tiny_env (\<lambda>a. [])" 3 0
      tiny_open tiny_file]
    Fallocate_size_overflow [of 4000 96 "tiny_env (\<lambda>a. [])" 3 0 tiny_open tiny_file]
    Fallocate_size_overflow [of "0x7FFFFFFFFFFFFFFF" 1 "tiny_env (\<lambda>a. [])" 3 1
      tiny_open tiny_file]
    Fallocate_size_overflow [of "0x7FFFFFFFFFFFFFFF" 1 "tiny_env (\<lambda>a. [])" 4 0
      tiny_open tiny_file]
    Fallocate_size_overflow [of "0x7FFFFFFFFFFFFFFF" 1
      "(tiny_env (\<lambda>a. []))\<lparr>StableAttrType := (\<lambda>f d. Fifo)\<rparr>" 3 0 tiny_open tiny_file]
    Fallocate_size_overflow [of "0x7FFFFFFFFFFFFFFF" 1
      "(tiny_env (\<lambda>a. []))\<lparr>StableAttrType := (\<lambda>f d. Directory)\<rparr>" 3 0 tiny_open tiny_file]
    Fallocate_size_overflow [of "0x7FFFFFFFFFFFFFFF" 1
      "(tiny_env (\<lambda>a. []))\<lparr>StableAttrType := (\<lambda>f d. Socket)\<rparr>" 3 0 tiny_open tiny_file]
  by (simp add: tiny_open_def tiny_file_def tiny_task_def tiny_env_def tiny_type_def
      tiny_dirs_def)

text \<open>
  The claim as stated fails on a descriptor that is not open: the sum wraps, and
  the call fails with EBADF.
\<close>

theorem Fallocate_size_overflow_counterexample:
  "0 \<le> sint (0x7FFFFFFFFFFFFFFF :: 64 word) \<and> 0 < sint (1 :: 64 word)
   \<and> sint (0x7FFFFFFFFFFFFFFF + 1 :: 64 word) < 0
   \<and> fst (Fallocate (tiny_env (\<lambda>a. [])) 4 0 0x7FFFFFFFFFFFFFFF 1 tiny_open) = Inl EBADF
   \<and> fst (Fallocate (tiny_env (\<lambda>a. [])) 4 0 0x7FFFFFFFFFFFFFFF 1 tiny_open) \<noteq> Inl EFBIG"
  by (simp add: Fallocate_def GetFile_def tiny_open_def tiny_task_def)

section \<open>The directory-relative resolver\<close>

subsection \<open>What the reference operations change\<close>

lemma IncRef_fields:
  "refs (IncRef x t) = (refs t)(x := refs t x + 1)"
  "reflog (IncRef x t) = reflog t @ [Acquire x]"
  "fs (IncRef x t) = fs t" "creds (IncRef x t) = creds t" "fsroot (IncRef x t) = fsroot t"
  "fscwd (IncRef x t) = fscwd t" "fdtable (IncRef x t) = fdtable t"
  "signals (IncRef x t) = signals t" "inotify (IncRef x t) = inotify t"
  "fsumask (IncRef x t) = fsumask t" "FileSizeCur (IncRef x t) = FileSizeCur t"
  "cloexec (IncRef x t) = cloexec t" "unimplemented (IncRef x t) = unimplemented t"
  by (simp_all add: IncRef_def)

lemma DecRef_fields:
  "refs (DecRef x t) = (refs t)(x := refs t x - 1)"
  "reflog (DecRef x t) = reflog t @ [Release x]"
  "fs (DecRef x t) = fs t" "creds (DecRef x t) = creds t" "fsroot (DecRef x t) = fsroot t"
  "fscwd (DecRef x t) = fscwd t" "fdtable (DecRef x t) = fdtable t"
  "signals (DecRef x t) = signals t" "inotify (DecRef x t) = inotify t"
  "fsumask (DecRef x t) = fsumask t" "FileSizeCur (DecRef x t) = FileSizeCur t"
  "cloexec (DecRef x t) = cloexec t" "unimplemented (DecRef x t) = unimplemented t"
  by (simp_all add: DecRef_def)



lemma resolve_abs:
  "absolute path \<Longrightarrow>
   fileOpOn_resolve env dirFD path resolve t =
     (case lookup env resolve t None path of
        (Inl err, rem) \<Rightarrow>
          Inl (err, DecRef (DirentRef (fsroot t)) (IncRef (DirentRef (fsroot t)) t))
      | (Inr d, rem) \<Rightarrow>
          Inr (fsroot t, d, rem,
               DecRef (DirentRef (fsroot t))
                 (IncRef (DirentRef d) (IncRef (DirentRef (fsroot t)) t))))"
  by (simp add: fileOpOn_resolve_def lookup_def RootDirectory_def FindInode_def FindLink_def
      IncRef_fields Let_def split: prod.splits sum.splits)

lemma resolve_cwd:
  "\<not> absolute path \<Longrightarrow>
   fileOpOn_resolve env AT_FDCWD path resolve t =
     (case lookup env resolve t (Some (fscwd t)) path of
        (Inl err, rem) \<Rightarrow>
          Inl (err, DecRef (DirentRef (fscwd t)) (DecRef (DirentRef (fsroot t))
                 (IncRef (DirentRef (fsroot t)) (IncRef (DirentRef (fscwd t)) t))))
      | (Inr d, rem) \<Rightarrow>
          Inr (fsroot t, d, rem,
               DecRef (DirentRef (fscwd t)) (DecRef (DirentRef (fsroot t))
                 (IncRef (DirentRef d)
                    (IncRef (DirentRef (fsroot t)) (IncRef (DirentRef (fscwd t)) t))))))"
  by (simp add: fileOpOn_resolve_def lookup_def RootDirectory_def WorkingDirectory_def
      FindInode_def FindLink_def IncRef_fields Let_def split: prod.splits sum.splits)

lemma resolve_fd:
  assumes "\<not> absolute path" "dirFD \<noteq> AT_FDCWD"
  shows "fileOpOn_resolve env dirFD path resolve t =
     (case fdtable t dirFD of
        None \<Rightarrow> Inl (EBADF, t)
      | Some f \<Rightarrow>
          if \<not> IsDir (StableAttrType env (fs t) (file_Dirent f))
          then Inl (ENOTDIR, DecRef (FileRef (file_id f)) (IncRef (FileRef (file_id f)) t))
          else
            (case lookup env resolve t (Some (file_Dirent f)) path of
               (Inl err, rem) \<Rightarrow>
                 Inl (err, DecRef (FileRef (file_id f)) (DecRef (DirentRef (fsroot t))
                        (IncRef (DirentRef (fsroot t)) (IncRef (FileRef (file_id f)) t))))
             | (Inr d, rem) \<Rightarrow>
                 Inr (fsroot t, d, rem,
                      DecRef (FileRef (file_id f)) (DecRef (DirentRef (fsroot t))
                        (IncRef (DirentRef d)
                           (IncRef (DirentRef (fsroot t)) (IncRef (FileRef (file_id f)) t)))))))"
proof (cases "fdtable t dirFD")
  case None
  with assms show ?thesis
    by (simp add: fileOpOn_resolve_def GetFile_def)
next
  case (Some f)
  show ?thesis
  proof (cases "IsDir (StableAttrType env (fs t) (file_Dirent f))")
    case False
    with assms Some show ?thesis
      by (simp add: fileOpOn_resolve_def GetFile_def IncRef_fields)
  next
    case True
    with assms Some show ?thesis
      by (simp add: fileOpOn_resolve_def lookup_def RootDirectory_def GetFile_def
          FindInode_def FindLink_def IncRef_fields Let_def split: prod.splits sum.splits)
  qed
qed

text \<open>
  C6. In \<open>fileOpOn\<close>, for a path that is not absolute and a descriptor other than
  \<open>AT_FDCWD\<close>: a descriptor that is not open gives EBADF, with the task untouched;
  an open descriptor whose dirent is not a directory gives ENOTDIR (the file
  reference taken is given back). For an absolute path the descriptor plays no
  part: the call is the same for any two descriptors, and the lookup is the mount
  namespace's from the task's root with no relative directory.
\<close>

theorem fileOpOn_anchor:
  "(\<not> absolute path \<and> dirFD \<noteq> AT_FDCWD \<and> fdtable t dirFD = None
      \<longrightarrow> fileOpOn env dirFD path resolve fn t = (Inl EBADF, t))
   \<and> (\<not> absolute path \<and> dirFD \<noteq> AT_FDCWD \<and> fdtable t dirFD = Some f
        \<and> \<not> IsDir (StableAttrType env (fs t) (file_Dirent f))
      \<longrightarrow> fst (fileOpOn env dirFD path resolve fn t) = Inl ENOTDIR
          \<and> fs (snd (fileOpOn env dirFD path resolve fn t)) = fs t
          \<and> refs (snd (fileOpOn env dirFD path resolve fn t)) = refs t)
   \<and> (absolute path
      \<longrightarrow> fileOpOn env dirFD path resolve fn t = fileOpOn env dirFD' path resolve fn t
          \<and> (case lookup env resolve t None path of
               (Inl err, rem) \<Rightarrow> fst (fileOpOn env dirFD path resolve fn t) = Inl err
             | (Inr d, rem) \<Rightarrow>
                 fst (fileOpOn env dirFD path resolve fn t)
                   = fst (fn (fsroot t) d rem
                            (DecRef (DirentRef (fsroot t))
                              (IncRef (DirentRef d) (IncRef (DirentRef (fsroot t)) t))))))"
proof (intro conjI impI)
  assume "\<not> absolute path \<and> dirFD \<noteq> AT_FDCWD \<and> fdtable t dirFD = None"
  then show "fileOpOn env dirFD path resolve fn t = (Inl EBADF, t)"
    by (simp add: fileOpOn_def resolve_fd)
next
  assume a: "\<not> absolute path \<and> dirFD \<noteq> AT_FDCWD \<and> fdtable t dirFD = Some f
        \<and> \<not> IsDir (StableAttrType env (fs t) (file_Dirent f))"
  then show "fst (fileOpOn env dirFD path resolve fn t) = Inl ENOTDIR"
    by (simp add: fileOpOn_def resolve_fd)
  from a show "fs (snd (fileOpOn env dirFD path resolve fn t)) = fs t"
    by (simp add: fileOpOn_def resolve_fd IncRef_fields DecRef_fields)
  from a show "refs (snd (fileOpOn env dirFD path resolve fn t)) = refs t"
    by (simp add: fileOpOn_def resolve_fd IncRef_fields DecRef_fields)
next
  assume "absolute path"
  then show "fileOpOn env dirFD path resolve fn t = fileOpOn env dirFD' path resolve fn t"
    by (simp add: fileOpOn_def resolve_abs)
next
  assume "absolute path"
  then show "case lookup env resolve t None path of
               (Inl err, rem) \<Rightarrow> fst (fileOpOn env dirFD path resolve fn t) = Inl err
             | (Inr d, rem) \<Rightarrow>
                 fst (fileOpOn env dirFD path resolve fn t)
                   = fst (fn (fsroot t) d rem
                            (DecRef (DirentRef (fsroot t))
                              (IncRef (DirentRef d) (IncRef (DirentRef (fsroot t)) t))))"
    by (simp add: fileOpOn_def resolve_abs split: prod.splits sum.splits)
qed

theorem fileOpOn_anchor_witness:
  "\<not> absolute ''x'' \<and> 9 \<noteq> AT_FDCWD \<and> fdtable tiny_open 9 = None
   \<and> fileOpOn (tiny_env (\<lambda>a. [])) 9 ''x'' True tiny_ok tiny_open = (Inl EBADF, tiny_open)
   \<and> 3 \<noteq> AT_FDCWD \<and> fdtable tiny_open 3 = Some tiny_file
   \<and> \<not> IsDir (StableAttrType (tiny_env (\<lambda>a. [])) (fs tiny_open) (file_Dirent tiny_file))
   \<and> fst (fileOpOn (tiny_env (\<lambda>a. [])) 3 ''x'' True tiny_ok tiny_open) = Inl ENOTDIR
   \<and> refs (snd (fileOpOn (tiny_env (\<lambda>a. [])) 3 ''x'' True tiny_ok tiny_open)) = refs tiny_open
   \<and> absolute ''/home''
   \<and> fileOpOn (tiny_env (\<lambda>a. [])) 3 ''/home'' True tiny_ok tiny_open
       = fileOpOn (tiny_env (\<lambda>a. [])) 9 ''/home'' True tiny_ok tiny_open
   \<and> lookup (tiny_env (\<lambda>a. [])) True tiny_open None ''/home'' = (Inr 1, 40)
   \<and> fst (fileOpOn (tiny_env (\<lambda>a. [])) 3 ''/home'' True tiny_ok tiny_open) = Inr ()"
  using fileOpOn_anchor [where path = "''x''" and dirFD = 9 and t = tiny_open
      and env = "tiny_env (\<lambda>a. [])" and resolve = True and fn = tiny_ok and f = tiny_file]
    fileOpOn_anchor [where path = "''x''" and dirFD = 3 and t = tiny_open
      and env = "tiny_env (\<lambda>a. [])" and resolve = True and fn = tiny_ok and f = tiny_file]
    fileOpOn_anchor [where path = "''/home''" and dirFD = 3 and dirFD' = 9 and t = tiny_open
      and env = "tiny_env (\<lambda>a. [])" and resolve = True and fn = tiny_ok and f = tiny_file]
  by (simp add: fileOpOn_def resolve_fd resolve_abs IncRef_fields DecRef_fields fun_eq_iff
      absolute_def AT_FDCWD_def tiny_open_def tiny_task_def tiny_file_def tiny_env_def
      tiny_type_def tiny_dirs_def IsDir_def lookup_def tiny_find_def tiny_ok_def
      MaxSymlinkTraversals_def)

text \<open>
  What \<open>fileOpOn\<close> has taken and released when it reaches the closure or leaves
  with an error.
\<close>

lemma resolve_references:
  "(case fileOpOn_resolve env dirFD path resolve t of
      Inl (err, t') \<Rightarrow>
        refs t' = refs t
        \<and> (\<exists>evs. reflog t' = reflog t @ evs \<and> acquired evs = released evs)
    | Inr (root, d, rem, t1) \<Rightarrow>
        root = fsroot t
        \<and> refs t1 = (refs t)(DirentRef d := refs t (DirentRef d) + 1)
        \<and> (\<exists>evs. reflog t1 = reflog t @ evs
                 \<and> acquired evs = add_mset (DirentRef d) (released evs)))"
proof (cases "absolute path")
  case True
  then show ?thesis
    by (simp add: resolve_abs IncRef_fields DecRef_fields fun_eq_iff
        split: prod.splits sum.splits)
next
  case False
  show ?thesis
  proof (cases "dirFD = AT_FDCWD")
    case True
    with False show ?thesis
      by (simp add: resolve_cwd IncRef_fields DecRef_fields fun_eq_iff
          split: prod.splits sum.splits)
  next
    case fd: False
    show ?thesis
    proof (cases "fdtable t dirFD")
      case None
      with False fd show ?thesis by (simp add: resolve_fd)
    next
      case (Some f)
      with False fd show ?thesis
        by (simp add: resolve_fd IncRef_fields DecRef_fields fun_eq_iff
            split: prod.splits sum.splits)
    qed
  qed
qed



subsection \<open>What the resolver leaves alone\<close>

lemma resolve_keeps:
  "(case fileOpOn_resolve env dirFD path resolve t of
      Inl (err, t') \<Rightarrow>
        fs t' = fs t \<and> creds t' = creds t \<and> signals t' = signals t \<and> fdtable t' = fdtable t
        \<and> inotify t' = inotify t
    | Inr (root, d, rem, t1) \<Rightarrow>
        fs t1 = fs t \<and> creds t1 = creds t \<and> signals t1 = signals t \<and> fdtable t1 = fdtable t
        \<and> inotify t1 = inotify t)"
proof (cases "absolute path")
  case True
  then show ?thesis
    by (simp add: resolve_abs IncRef_fields DecRef_fields split: prod.splits sum.splits)
next
  case False
  show ?thesis
  proof (cases "dirFD = AT_FDCWD")
    case True
    with False show ?thesis
      by (simp add: resolve_cwd IncRef_fields DecRef_fields split: prod.splits sum.splits)
  next
    case fd: False
    show ?thesis
    proof (cases "fdtable t dirFD")
      case None
      with False fd show ?thesis by (simp add: resolve_fd)
    next
      case (Some f)
      with False fd show ?thesis
        by (simp add: resolve_fd IncRef_fields DecRef_fields split: prod.splits sum.splits)
    qed
  qed
qed

lemma resolve_Inr_keeps:
  assumes "fileOpOn_resolve env dirFD path resolve t = Inr (root, d, rem, t1)"
  shows "fs t1 = fs t" "creds t1 = creds t" "signals t1 = signals t"
    "fdtable t1 = fdtable t" "inotify t1 = inotify t"
  using resolve_keeps [where env = env and dirFD = dirFD and path = path and resolve = resolve and t = t] assms by simp_all

lemmas tiny_defs = tiny_home_def tiny_user_def tiny_user_denied_def tiny_env_def tiny_task_def
  tiny_dirs_def tiny_creds_def tiny_find_def tiny_type_def tiny_Trim_def tiny_CheckPermission_def
  tiny_linuxToFlags_def tiny_flagsToPermissions_def

lemmas abi_defs = AT_FDCWD_def MaxSymlinkTraversals_def PATH_MAX_def O_NOFOLLOW_def O_TRUNC_def
  O_EXCL_def O_CLOEXEC_def O_CREAT_def

section \<open>open(2) on a directory\<close>

text \<open>
  C1, as amended. For an \<open>open\<close> without O_CREAT whose path resolves to a directory
  and whose flags ask for write access, the closure of \<open>openAt\<close> checks the
  permission on the directory first: when that check refuses, the call fails with
  the check's error; when it passes, the call fails with EISDIR. Nothing is opened
  and the backend's state is unchanged either way.
\<close>

theorem openAt_directory_write:
  assumes "copyInPath env addr False = Inr (path, dirPath)"
    and "fileOpOn_resolve env dirFD path (flags AND O_NOFOLLOW = 0) t = Inr (root, d, rem, t1)"
    and "IsDir (StableAttrType env (fs t) d)"
    and "ff_Write (linuxToFlags env flags)"
  shows "fst (openAt env dirFD addr flags t) =
           (case InodeCheckPermission env (fs t) (creds t) d (flagsToPermissions env flags) of
              Some err \<Rightarrow> Inl err
            | None \<Rightarrow> Inl EISDIR)
         \<and> fs (snd (openAt env dirFD addr flags t)) = fs t
         \<and> fdtable (snd (openAt env dirFD addr flags t)) = fdtable t"
proof -
  note k = resolve_Inr_keeps [OF assms(2)]
  from assms(3) have ns: "\<not> IsSymlink (StableAttrType env (fs t) d)"
    by (simp add: IsDir_def IsSymlink_def)
  show ?thesis
    using assms ns
    by (simp add: openAt_def fileOpOn_def openAt_fn_def k DecRef_fields Let_def
        split: option.splits)
qed

theorem openAt_directory_write_witness:
  "copyInPath tiny_home 0 False = Inr (''/home'', False)
   \<and> fileOpOn_resolve tiny_home AT_FDCWD ''/home'' (1 AND O_NOFOLLOW = 0) tiny_user
       = Inr (0, 1, 40, DecRef (DirentRef 0) (IncRef (DirentRef 1) (IncRef (DirentRef 0) tiny_user)))
   \<and> IsDir (StableAttrType tiny_home (fs tiny_user) 1)
   \<and> ff_Write (linuxToFlags tiny_home 1)
   \<and> InodeCheckPermission tiny_home (fs tiny_user) (creds tiny_user) 1
        (flagsToPermissions tiny_home 1) = None
   \<and> fst (openAt tiny_home AT_FDCWD 0 1 tiny_user) = Inl EISDIR"
  using openAt_directory_write [where env = tiny_home and addr = 0 and path = "''/home''"
      and dirPath = False and dirFD = AT_FDCWD and flags = 1 and t = tiny_user and root = 0
      and d = 1 and rem = 40
      and ?t1.0 = "DecRef (DirentRef 0) (IncRef (DirentRef 1) (IncRef (DirentRef 0) tiny_user))"]
  by (simp add: copyInPath_def resolve_abs absolute_def lookup_def IsDir_def tiny_defs abi_defs)

text \<open>
  The claim as stated fails where the permission check refuses: the path resolves
  to a directory, the flags ask for write access, and the error is EACCES.
\<close>

theorem openAt_directory_write_counterexample:
  "copyInPath tiny_home 0 False = Inr (''/home'', False)
   \<and> lookup tiny_home (1 AND O_NOFOLLOW = 0) tiny_user_denied None ''/home'' = (Inr 1, 40)
   \<and> IsDir (StableAttrType tiny_home (fs tiny_user_denied) 1)
   \<and> ff_Write (linuxToFlags tiny_home 1)
   \<and> fst (openAt tiny_home AT_FDCWD 0 1 tiny_user_denied) = Inl EACCES
   \<and> fst (openAt tiny_home AT_FDCWD 0 1 tiny_user_denied) \<noteq> Inl EISDIR"
  by (simp add: openAt_def openAt_fn_def fileOpOn_def copyInPath_def resolve_abs absolute_def
      lookup_def IsDir_def IncRef_fields DecRef_fields tiny_defs abi_defs)

section \<open>The credentials of access(2)\<close>

lemma accessAt_creds_kept: "creds (snd (accessAt env dirFD addr mode t)) = creds t"
proof (cases "copyInPath env addr False")
  case (Inl err)
  then show ?thesis by (simp add: accessAt_def)
next
  case (Inr pd)
  obtain path dirPath where pd: "pd = (path, dirPath)" by (cases pd)
  show ?thesis
    using resolve_keeps [where env = env and dirFD = dirFD and path = path and resolve = True
        and t = t] Inr pd
    by (simp add: accessAt_def fileOpOn_def DecRef_fields
        split: sum.splits prod.splits option.splits)
qed

text \<open>
  C9. \<open>accessAt\<close> never changes the task's credentials. The credentials it builds
  have the effective uid and gid of the real ones, the permitted capabilities as
  effective ones when the real uid maps to root in the user namespace and none
  otherwise, and everything else as in the task's. When the path is copied in, the
  mode is valid and the path resolves, the result of the call is the result of the
  inode's permission check under those credentials, for the mask the mode asks.
\<close>

theorem accessAt_credentials:
  "creds (snd (accessAt env dirFD addr mode t)) = creds t
   \<and> EffectiveKUID (accessCreds env c) = RealKUID c
   \<and> EffectiveKGID (accessCreds env c) = RealKGID c
   \<and> EffectiveCaps (accessCreds env c)
       = (if MapFromKUID env (UserNamespace c) (RealKUID c) = RootUID then PermittedCaps c else 0)
   \<and> RealKUID (accessCreds env c) = RealKUID c \<and> RealKGID (accessCreds env c) = RealKGID c
   \<and> PermittedCaps (accessCreds env c) = PermittedCaps c
   \<and> UserNamespace (accessCreds env c) = UserNamespace c
   \<and> (copyInPath env addr False = Inr (path, dirPath) \<and> mode AND NOT (4 OR 2 OR 1) = 0
        \<and> fileOpOn_resolve env dirFD path True t = Inr (root, d, rem, t1)
       \<longrightarrow> fst (accessAt env dirFD addr mode t)
            = (case InodeCheckPermission env (fs t) (accessCreds env (creds t)) d
                      \<lparr>pm_Read = (mode AND 4 \<noteq> 0), pm_Write = (mode AND 2 \<noteq> 0),
                       pm_Execute = (mode AND 1 \<noteq> 0)\<rparr> of
                 Some err \<Rightarrow> Inl err
               | None \<Rightarrow> Inr ()))"
proof (intro conjI impI)
  show "creds (snd (accessAt env dirFD addr mode t)) = creds t"
    by (rule accessAt_creds_kept)
next
  assume a: "copyInPath env addr False = Inr (path, dirPath) \<and> mode AND NOT (4 OR 2 OR 1) = 0
        \<and> fileOpOn_resolve env dirFD path True t = Inr (root, d, rem, t1)"
  then have r: "fileOpOn_resolve env dirFD path True t = Inr (root, d, rem, t1)" by simp
  note k = resolve_Inr_keeps [OF r]
  from a show "fst (accessAt env dirFD addr mode t)
            = (case InodeCheckPermission env (fs t) (accessCreds env (creds t)) d
                      \<lparr>pm_Read = (mode AND 4 \<noteq> 0), pm_Write = (mode AND 2 \<noteq> 0),
                       pm_Execute = (mode AND 1 \<noteq> 0)\<rparr> of
                 Some err \<Rightarrow> Inl err
               | None \<Rightarrow> Inr ())"
    by (simp add: accessAt_def fileOpOn_def k split: option.splits)
qed (simp_all add: accessCreds_def Let_def)

theorem accessAt_credentials_witness:
  "copyInPath tiny_rootonly 0 False = Inr (''/home'', False)
   \<and> (4 :: 64 word) AND NOT (4 OR 2 OR 1) = 0
   \<and> fileOpOn_resolve tiny_rootonly AT_FDCWD ''/home'' True tiny_suid
       = Inr (0, 1, 40, DecRef (DirentRef 0) (IncRef (DirentRef 1) (IncRef (DirentRef 0) tiny_suid)))
   \<and> EffectiveKUID (creds tiny_suid) = 0 \<and> RealKUID (creds tiny_suid) = 1000
   \<and> EffectiveKUID (accessCreds tiny_rootonly (creds tiny_suid)) = 1000
   \<and> EffectiveCaps (accessCreds tiny_rootonly (creds tiny_suid)) = 0
   \<and> fst (accessAt tiny_rootonly AT_FDCWD 0 4 tiny_suid) = Inl EACCES
   \<and> creds (snd (accessAt tiny_rootonly AT_FDCWD 0 4 tiny_suid)) = creds tiny_suid"
  using accessAt_credentials [where env = tiny_rootonly and addr = 0 and path = "''/home''"
      and dirPath = False and dirFD = AT_FDCWD and mode = 4 and t = tiny_suid and root = 0
      and d = 1 and rem = 40 and c = "creds tiny_suid"
      and ?t1.0 = "DecRef (DirentRef 0) (IncRef (DirentRef 1) (IncRef (DirentRef 0) tiny_suid))"]
  by (simp add: copyInPath_def resolve_abs absolute_def lookup_def accessCreds_def RootUID_def
      tiny_suid_def tiny_rootonly_def tiny_defs abi_defs)

section \<open>The policy of chown\<close>

lemma chown_uid_result:
  "chown_uid env c uattr hasCap isOwner uid = Inr (cl, ow) \<Longrightarrow>
     ow = (if uid \<noteq> NoID then MapToKUID env (UserNamespace c) uid else NoID)
     \<and> cl = (uid \<noteq> NoID \<and> fo_UID (ua_Owner uattr) \<noteq> MapToKUID env (UserNamespace c) uid)
     \<and> (uid \<noteq> NoID \<longrightarrow>
          hasCap \<or> (isOwner \<and> fo_UID (ua_Owner uattr) = MapToKUID env (UserNamespace c) uid))"
  by (auto simp: chown_uid_def Let_def split: if_splits)

lemma chown_gid_result:
  "chown_gid env c uattr hasCap isOwner gid = Inr (cl, ow) \<Longrightarrow>
     ow = (if gid \<noteq> NoID then MapToKGID env (UserNamespace c) gid else NoID)
     \<and> cl = (gid \<noteq> NoID \<and> fo_GID (ua_Owner uattr) \<noteq> MapToKGID env (UserNamespace c) gid)"
  by (auto simp: chown_gid_def Let_def split: if_splits)

lemma chown_success_uid:
  assumes ua: "InodeUnstableAttr env (fs t) d = Inr uattr"
    and ok: "fst (chown env d uid gid t) = Inr ()"
  shows "\<exists>cl ow. chown_uid env (creds t) uattr
            (InodeCheckCapability env (fs t) (creds t) d CAP_CHOWN)
            (fo_UID (ua_Owner uattr) = EffectiveKUID (creds t)) uid = Inr (cl, ow)"
proof (cases "chown_uid env (creds t) uattr
            (InodeCheckCapability env (fs t) (creds t) d CAP_CHOWN)
            (fo_UID (ua_Owner uattr) = EffectiveKUID (creds t)) uid")
  case (Inl err)
  with ua ok show ?thesis by (simp add: chown_def Let_def)
next
  case (Inr p)
  then show ?thesis by (cases p) simp
qed

lemma chown_after_checks:
  assumes ua: "InodeUnstableAttr env (fs t) d = Inr uattr"
    and u: "chown_uid env (creds t) uattr
            (InodeCheckCapability env (fs t) (creds t) d CAP_CHOWN)
            (fo_UID (ua_Owner uattr) = EffectiveKUID (creds t)) uid = Inr (clU, owU)"
    and g: "chown_gid env (creds t) uattr
            (InodeCheckCapability env (fs t) (creds t) d CAP_CHOWN)
            (fo_UID (ua_Owner uattr) = EffectiveKUID (creds t)) gid = Inr (clG, owG)"
  shows "chown env d uid gid t =
     (case InodeSetOwner env (fs t) d \<lparr>fo_UID = owU, fo_GID = owG\<rparr> of
        (Some err, fs1) \<Rightarrow> (Inl err, t\<lparr>fs := fs1\<rparr>)
      | (None, fs1) \<Rightarrow>
          if (clU \<or> clG) \<and> HasSetUIDOrGID (ua_Perms uattr) \<and> \<not> IsDir (StableAttrType env fs1 d)
          then
            (case InodeSetPermissions env fs1 d (DropSetUIDAndMaybeGID env (ua_Perms uattr)) of
               (False, fs2) \<Rightarrow> (Inl EPERM, t\<lparr>fs := fs2\<rparr>)
             | (True, fs2) \<Rightarrow> (Inr (), t\<lparr>fs := fs2\<rparr>))
          else (Inr (), t\<lparr>fs := fs1\<rparr>))"
  using ua u g by (simp add: chown_def Let_def)

lemma chown_failed_check:
  assumes ua: "InodeUnstableAttr env (fs t) d = Inr uattr"
    and "chown_uid env (creds t) uattr
            (InodeCheckCapability env (fs t) (creds t) d CAP_CHOWN)
            (fo_UID (ua_Owner uattr) = EffectiveKUID (creds t)) uid = Inl err
         \<or> chown_gid env (creds t) uattr
            (InodeCheckCapability env (fs t) (creds t) d CAP_CHOWN)
            (fo_UID (ua_Owner uattr) = EffectiveKUID (creds t)) gid = Inl err"
  shows "\<exists>e. chown env d uid gid t = (Inl e, t)"
  using assms by (auto simp: chown_def Let_def split: sum.splits prod.splits)

lemmas chown_defs = tiny_suid_perms_def tiny_attr_def tiny_owned_def tiny_noperm_def
  tiny_UnstableAttr_def tiny_SetOwner_def tiny_SetPermissions_def tiny_Drop_def
  NoID_def CAP_CHOWN_def HasSetUIDOrGID_def IsDir_def

text \<open>
  C7, as amended. When the attributes can be read: (1) a \<open>chown\<close> that names a uid
  succeeds only if the inode grants CAP_CHOWN, or the caller's effective uid owns
  the file and the new uid (mapped into the namespace) is the file's current uid;
  (2) such a no-op chown by the owner, with the gid left alone, passes both checks
  without the capability and returns what \<open>SetOwner\<close> returns; (3) when the uid or
  the gid actually changes, a set-uid or set-gid bit is set, \<open>SetOwner\<close> has
  succeeded and the file is not a directory, a successful \<open>chown\<close> has written the
  permissions \<open>DropSetUIDAndMaybeGID\<close> computes through \<open>SetPermissions\<close>, and if
  \<open>SetPermissions\<close> refuses, \<open>chown\<close> does not succeed; (4) when moreover the
  ownership checks pass (each id named maps to a valid id, and the inode grants
  CAP_CHOWN or the caller owns the file and leaves the uid as it is and names its
  current group or a group of the caller's), the result is exactly: success, or
  EPERM if \<open>SetPermissions\<close> refuses, in either case with the backend in the state
  \<open>SetPermissions\<close> left, after \<open>SetOwner\<close> has stored the new owner.
\<close>

theorem chown_policy:
  "InodeUnstableAttr env (fs t) d = Inr uattr \<longrightarrow>
     (uid \<noteq> NoID \<and> fst (chown env d uid gid t) = Inr ()
        \<longrightarrow> InodeCheckCapability env (fs t) (creds t) d CAP_CHOWN
            \<or> (fo_UID (ua_Owner uattr) = EffectiveKUID (creds t)
               \<and> MapToKUID env (UserNamespace (creds t)) uid = fo_UID (ua_Owner uattr)))
     \<and> (uid \<noteq> NoID \<and> gid = NoID
          \<and> MapToKUID env (UserNamespace (creds t)) uid \<noteq> NoID
          \<and> MapToKUID env (UserNamespace (creds t)) uid = fo_UID (ua_Owner uattr)
          \<and> fo_UID (ua_Owner uattr) = EffectiveKUID (creds t)
        \<longrightarrow> chown env d uid gid t
             = (case InodeSetOwner env (fs t) d
                       \<lparr>fo_UID = MapToKUID env (UserNamespace (creds t)) uid, fo_GID = NoID\<rparr> of
                  (Some err, fs1) \<Rightarrow> (Inl err, t\<lparr>fs := fs1\<rparr>)
                | (None, fs1) \<Rightarrow> (Inr (), t\<lparr>fs := fs1\<rparr>)))
     \<and> (((uid \<noteq> NoID \<and> MapToKUID env (UserNamespace (creds t)) uid \<noteq> fo_UID (ua_Owner uattr))
           \<or> (gid \<noteq> NoID \<and> MapToKGID env (UserNamespace (creds t)) gid \<noteq> fo_GID (ua_Owner uattr)))
          \<and> HasSetUIDOrGID (ua_Perms uattr)
          \<and> InodeSetOwner env (fs t) d
               \<lparr>fo_UID = (if uid \<noteq> NoID then MapToKUID env (UserNamespace (creds t)) uid else NoID),
                fo_GID = (if gid \<noteq> NoID then MapToKGID env (UserNamespace (creds t)) gid else NoID)\<rparr>
              = (None, fs1)
          \<and> \<not> IsDir (StableAttrType env fs1 d)
          \<and> InodeSetPermissions env fs1 d (DropSetUIDAndMaybeGID env (ua_Perms uattr)) = (ok, fs2)
        \<longrightarrow> (fst (chown env d uid gid t) = Inr () \<longrightarrow> ok \<and> fs (snd (chown env d uid gid t)) = fs2)
            \<and> (\<not> ok \<longrightarrow> fst (chown env d uid gid t) \<noteq> Inr ()))
     \<and> ((uid \<noteq> NoID \<longrightarrow>
             MapToKUID env (UserNamespace (creds t)) uid \<noteq> NoID
             \<and> (InodeCheckCapability env (fs t) (creds t) d CAP_CHOWN
                \<or> (fo_UID (ua_Owner uattr) = EffectiveKUID (creds t)
                   \<and> fo_UID (ua_Owner uattr) = MapToKUID env (UserNamespace (creds t)) uid)))
          \<and> (gid \<noteq> NoID \<longrightarrow>
             MapToKGID env (UserNamespace (creds t)) gid \<noteq> NoID
             \<and> (InodeCheckCapability env (fs t) (creds t) d CAP_CHOWN
                \<or> (fo_UID (ua_Owner uattr) = EffectiveKUID (creds t)
                   \<and> (fo_GID (ua_Owner uattr) = MapToKGID env (UserNamespace (creds t)) gid
                      \<or> InGroup env (creds t) (MapToKGID env (UserNamespace (creds t)) gid)))))
          \<and> ((uid \<noteq> NoID \<and> MapToKUID env (UserNamespace (creds t)) uid \<noteq> fo_UID (ua_Owner uattr))
           \<or> (gid \<noteq> NoID \<and> MapToKGID env (UserNamespace (creds t)) gid \<noteq> fo_GID (ua_Owner uattr)))
          \<and> HasSetUIDOrGID (ua_Perms uattr)
          \<and> InodeSetOwner env (fs t) d
               \<lparr>fo_UID = (if uid \<noteq> NoID then MapToKUID env (UserNamespace (creds t)) uid else NoID),
                fo_GID = (if gid \<noteq> NoID then MapToKGID env (UserNamespace (creds t)) gid else NoID)\<rparr>
              = (None, fs1)
          \<and> \<not> IsDir (StableAttrType env fs1 d)
          \<and> InodeSetPermissions env fs1 d (DropSetUIDAndMaybeGID env (ua_Perms uattr)) = (ok, fs2)
        \<longrightarrow> chown env d uid gid t
             = (if ok then (Inr (), t\<lparr>fs := fs2\<rparr>) else (Inl EPERM, t\<lparr>fs := fs2\<rparr>)))"
  (is "?ua \<longrightarrow> ?p1 \<and> ?p2 \<and> ?p3 \<and> ?p4")
proof
  assume ua: ?ua
  let ?cu = "chown_uid env (creds t) uattr
            (InodeCheckCapability env (fs t) (creds t) d CAP_CHOWN)
            (fo_UID (ua_Owner uattr) = EffectiveKUID (creds t)) uid"
  let ?cg = "chown_gid env (creds t) uattr
            (InodeCheckCapability env (fs t) (creds t) d CAP_CHOWN)
            (fo_UID (ua_Owner uattr) = EffectiveKUID (creds t)) gid"
  have p1: ?p1
  proof
    assume a: "uid \<noteq> NoID \<and> fst (chown env d uid gid t) = Inr ()"
    then obtain cl ow where "?cu = Inr (cl, ow)"
      using chown_success_uid [OF ua] by blast
    from chown_uid_result [OF this] a
    show "InodeCheckCapability env (fs t) (creds t) d CAP_CHOWN
            \<or> (fo_UID (ua_Owner uattr) = EffectiveKUID (creds t)
               \<and> MapToKUID env (UserNamespace (creds t)) uid = fo_UID (ua_Owner uattr))"
      by auto
  qed
  have p2: ?p2
  proof
    assume a: "uid \<noteq> NoID \<and> gid = NoID
          \<and> MapToKUID env (UserNamespace (creds t)) uid \<noteq> NoID
          \<and> MapToKUID env (UserNamespace (creds t)) uid = fo_UID (ua_Owner uattr)
          \<and> fo_UID (ua_Owner uattr) = EffectiveKUID (creds t)"
    then have u: "?cu = Inr (False, MapToKUID env (UserNamespace (creds t)) uid)"
      by (auto simp: chown_uid_def Let_def)
    from a have g: "?cg = Inr (False, NoID)"
      by (simp add: chown_gid_def)
    show "chown env d uid gid t
             = (case InodeSetOwner env (fs t) d
                       \<lparr>fo_UID = MapToKUID env (UserNamespace (creds t)) uid, fo_GID = NoID\<rparr> of
                  (Some err, fs1) \<Rightarrow> (Inl err, t\<lparr>fs := fs1\<rparr>)
                | (None, fs1) \<Rightarrow> (Inr (), t\<lparr>fs := fs1\<rparr>))"
      by (simp add: chown_after_checks [OF ua u g] split: prod.splits option.splits)
  qed
  have p3: ?p3
  proof (intro impI)
    assume a: "((uid \<noteq> NoID \<and> MapToKUID env (UserNamespace (creds t)) uid \<noteq> fo_UID (ua_Owner uattr))
           \<or> (gid \<noteq> NoID \<and> MapToKGID env (UserNamespace (creds t)) gid \<noteq> fo_GID (ua_Owner uattr)))
          \<and> HasSetUIDOrGID (ua_Perms uattr)
          \<and> InodeSetOwner env (fs t) d
               \<lparr>fo_UID = (if uid \<noteq> NoID then MapToKUID env (UserNamespace (creds t)) uid else NoID),
                fo_GID = (if gid \<noteq> NoID then MapToKGID env (UserNamespace (creds t)) gid else NoID)\<rparr>
              = (None, fs1)
          \<and> \<not> IsDir (StableAttrType env fs1 d)
          \<and> InodeSetPermissions env fs1 d (DropSetUIDAndMaybeGID env (ua_Perms uattr)) = (ok, fs2)"
    show "(fst (chown env d uid gid t) = Inr () \<longrightarrow> ok \<and> fs (snd (chown env d uid gid t)) = fs2)
            \<and> (\<not> ok \<longrightarrow> fst (chown env d uid gid t) \<noteq> Inr ())"
    proof (cases ?cu)
      case (Inl err)
      then obtain e where "chown env d uid gid t = (Inl e, t)"
        using chown_failed_check [OF ua, of uid err gid] by blast
      then show ?thesis by simp
    next
      case (Inr pu)
      obtain clU owU where pu: "pu = (clU, owU)" by (cases pu)
      show ?thesis
      proof (cases ?cg)
        case (Inl err)
        then obtain e where "chown env d uid gid t = (Inl e, t)"
          using chown_failed_check [OF ua, of uid err gid] by blast
        then show ?thesis by simp
      next
        case g: (Inr pg)
        obtain clG owG where pg: "pg = (clG, owG)" by (cases pg)
        from Inr pu have u': "?cu = Inr (clU, owU)" by simp
        from g pg have g': "?cg = Inr (clG, owG)" by simp
        note ru = chown_uid_result [OF u'] and rg = chown_gid_result [OF g']
        from ru rg a have cl: "clU \<or> clG" by auto
        from ru rg have ow: "owU = (if uid \<noteq> NoID then MapToKUID env (UserNamespace (creds t)) uid else NoID)"
          "owG = (if gid \<noteq> NoID then MapToKGID env (UserNamespace (creds t)) gid else NoID)"
          by simp_all
        show ?thesis
          using a cl unfolding chown_after_checks [OF ua u' g'] ow
          by (cases ok) simp_all
      qed
    qed
  qed
  have p4: ?p4
  proof (intro impI)
    assume a: "(uid \<noteq> NoID \<longrightarrow>
             MapToKUID env (UserNamespace (creds t)) uid \<noteq> NoID
             \<and> (InodeCheckCapability env (fs t) (creds t) d CAP_CHOWN
                \<or> (fo_UID (ua_Owner uattr) = EffectiveKUID (creds t)
                   \<and> fo_UID (ua_Owner uattr) = MapToKUID env (UserNamespace (creds t)) uid)))
          \<and> (gid \<noteq> NoID \<longrightarrow>
             MapToKGID env (UserNamespace (creds t)) gid \<noteq> NoID
             \<and> (InodeCheckCapability env (fs t) (creds t) d CAP_CHOWN
                \<or> (fo_UID (ua_Owner uattr) = EffectiveKUID (creds t)
                   \<and> (fo_GID (ua_Owner uattr) = MapToKGID env (UserNamespace (creds t)) gid
                      \<or> InGroup env (creds t) (MapToKGID env (UserNamespace (creds t)) gid)))))
          \<and> ((uid \<noteq> NoID \<and> MapToKUID env (UserNamespace (creds t)) uid \<noteq> fo_UID (ua_Owner uattr))
           \<or> (gid \<noteq> NoID \<and> MapToKGID env (UserNamespace (creds t)) gid \<noteq> fo_GID (ua_Owner uattr)))
          \<and> HasSetUIDOrGID (ua_Perms uattr)
          \<and> InodeSetOwner env (fs t) d
               \<lparr>fo_UID = (if uid \<noteq> NoID then MapToKUID env (UserNamespace (creds t)) uid else NoID),
                fo_GID = (if gid \<noteq> NoID then MapToKGID env (UserNamespace (creds t)) gid else NoID)\<rparr>
              = (None, fs1)
          \<and> \<not> IsDir (StableAttrType env fs1 d)
          \<and> InodeSetPermissions env fs1 d (DropSetUIDAndMaybeGID env (ua_Perms uattr)) = (ok, fs2)"
    from a have u: "?cu = Inr (uid \<noteq> NoID
          \<and> fo_UID (ua_Owner uattr) \<noteq> MapToKUID env (UserNamespace (creds t)) uid,
        if uid \<noteq> NoID then MapToKUID env (UserNamespace (creds t)) uid else NoID)"
      by (auto simp: chown_uid_def Let_def)
    from a have g: "?cg = Inr (gid \<noteq> NoID
          \<and> fo_GID (ua_Owner uattr) \<noteq> MapToKGID env (UserNamespace (creds t)) gid,
        if gid \<noteq> NoID then MapToKGID env (UserNamespace (creds t)) gid else NoID)"
      by (auto simp: chown_gid_def Let_def)
    from a have cl: "(uid \<noteq> NoID
          \<and> fo_UID (ua_Owner uattr) \<noteq> MapToKUID env (UserNamespace (creds t)) uid)
        \<or> (gid \<noteq> NoID
          \<and> fo_GID (ua_Owner uattr) \<noteq> MapToKGID env (UserNamespace (creds t)) gid)"
      by auto
    show "chown env d uid gid t
             = (if ok then (Inr (), t\<lparr>fs := fs2\<rparr>) else (Inl EPERM, t\<lparr>fs := fs2\<rparr>))"
      using a cl unfolding chown_after_checks [OF ua u g]
      by (cases ok) simp_all
  qed
  from p1 p2 p3 p4 show "?p1 \<and> ?p2 \<and> ?p3 \<and> ?p4" by (intro conjI)
qed

theorem chown_policy_witness:
  "InodeUnstableAttr tiny_home (fs (tiny_task tiny_owned (tiny_creds 0 1))) 5 = Inr tiny_attr
   \<and> (2000 :: uid32) \<noteq> NoID
   \<and> fst (chown tiny_home 5 2000 NoID (tiny_task tiny_owned (tiny_creds 0 1))) = Inr ()
   \<and> InodeCheckCapability tiny_home tiny_owned (tiny_creds 0 1) 5 CAP_CHOWN
   \<and> MapToKUID tiny_home 0 2000 \<noteq> fo_UID (ua_Owner tiny_attr)
   \<and> HasSetUIDOrGID (ua_Perms tiny_attr)
   \<and> \<not> IsDir (StableAttrType tiny_home (snd (tiny_SetOwner tiny_owned 5 \<lparr>fo_UID = 2000, fo_GID = NoID\<rparr>)) 5)
   \<and> InodeUnstableAttr tiny_home
        (fs (snd (chown tiny_home 5 2000 NoID (tiny_task tiny_owned (tiny_creds 0 1))))) 5
       = Inr \<lparr>ua_Owner = \<lparr>fo_UID = 2000, fo_GID = 1000\<rparr>,
              ua_Perms = tiny_suid_perms\<lparr>fp_SetUID := False\<rparr>\<rparr>
   \<and> (1000 :: uid32) \<noteq> NoID
   \<and> MapToKUID tiny_home 0 1000 = fo_UID (ua_Owner tiny_attr)
   \<and> fo_UID (ua_Owner tiny_attr) = EffectiveKUID (tiny_creds 1000 0)
   \<and> \<not> InodeCheckCapability tiny_home tiny_owned (tiny_creds 1000 0) 5 CAP_CHOWN
   \<and> fst (chown tiny_home 5 1000 NoID (tiny_task tiny_owned (tiny_creds 1000 0))) = Inr ()
   \<and> InodeUnstableAttr tiny_noperm (fs (tiny_task tiny_owned (tiny_creds 0 1))) 5 = Inr tiny_attr
   \<and> InodeCheckCapability tiny_noperm tiny_owned (tiny_creds 0 1) 5 CAP_CHOWN
   \<and> MapToKUID tiny_noperm 0 2000 \<noteq> NoID
   \<and> InodeSetOwner tiny_noperm tiny_owned 5 \<lparr>fo_UID = 2000, fo_GID = NoID\<rparr>
       = (None, snd (tiny_SetOwner tiny_owned 5 \<lparr>fo_UID = 2000, fo_GID = NoID\<rparr>))
   \<and> InodeSetPermissions tiny_noperm
        (snd (tiny_SetOwner tiny_owned 5 \<lparr>fo_UID = 2000, fo_GID = NoID\<rparr>)) 5
        (DropSetUIDAndMaybeGID tiny_noperm (ua_Perms tiny_attr))
       = (False, snd (tiny_SetOwner tiny_owned 5 \<lparr>fo_UID = 2000, fo_GID = NoID\<rparr>))
   \<and> chown tiny_noperm 5 2000 NoID (tiny_task tiny_owned (tiny_creds 0 1))
       = (Inl EPERM,
          (tiny_task tiny_owned (tiny_creds 0 1))
            \<lparr>fs := snd (tiny_SetOwner tiny_owned 5 \<lparr>fo_UID = 2000, fo_GID = NoID\<rparr>)\<rparr>)"
  using chown_policy [where env = tiny_home and t = "tiny_task tiny_owned (tiny_creds 0 1)"
      and d = 5 and uattr = tiny_attr and uid = 2000 and gid = NoID
      and ?fs1.0 = "snd (tiny_SetOwner tiny_owned 5 \<lparr>fo_UID = 2000, fo_GID = NoID\<rparr>)"
      and ok = True
      and ?fs2.0 = "snd (tiny_SetPermissions
            (snd (tiny_SetOwner tiny_owned 5 \<lparr>fo_UID = 2000, fo_GID = NoID\<rparr>)) 5
            (tiny_Drop tiny_suid_perms))"]
    chown_policy [where env = tiny_home and t = "tiny_task tiny_owned (tiny_creds 1000 0)"
      and d = 5 and uattr = tiny_attr and uid = 1000 and gid = NoID]
    chown_policy [where env = tiny_noperm and t = "tiny_task tiny_owned (tiny_creds 0 1)"
      and d = 5 and uattr = tiny_attr and uid = 2000 and gid = NoID
      and ?fs1.0 = "snd (tiny_SetOwner tiny_owned 5 \<lparr>fo_UID = 2000, fo_GID = NoID\<rparr>)"
      and ok = False
      and ?fs2.0 = "snd (tiny_SetOwner tiny_owned 5 \<lparr>fo_UID = 2000, fo_GID = NoID\<rparr>)"]
  by (simp add: chown_def chown_uid_def chown_gid_def chown_defs tiny_defs)

text \<open>
  The claim as stated fails where the inode refuses \<open>SetPermissions\<close>: the owner of
  the regular file 5 changes from 1000 to 2000, the call fails with EPERM, and the
  set-uid bit is still set.
\<close>

theorem chown_policy_counterexample:
  "InodeUnstableAttr tiny_noperm (fs (tiny_task tiny_owned (tiny_creds 0 1))) 5 = Inr tiny_attr
   \<and> fp_SetUID (ua_Perms tiny_attr)
   \<and> StableAttrType tiny_noperm tiny_owned 5 = Regular
   \<and> fst (chown tiny_noperm 5 2000 NoID (tiny_task tiny_owned (tiny_creds 0 1))) = Inl EPERM
   \<and> InodeUnstableAttr tiny_noperm
        (fs (snd (chown tiny_noperm 5 2000 NoID (tiny_task tiny_owned (tiny_creds 0 1))))) 5
       = Inr \<lparr>ua_Owner = \<lparr>fo_UID = 2000, fo_GID = 1000\<rparr>, ua_Perms = tiny_suid_perms\<rparr>
   \<and> fp_SetUID tiny_suid_perms"
  by (simp add: chown_def chown_uid_def chown_gid_def chown_defs tiny_defs)

section \<open>The create-or-open loop\<close>

subsection \<open>The parent resolver and the loop\<close>

lemma fileOpAt_eq:
  "fileOpAt env dirFD path fn t =
     (case fileOpAt_resolve env dirFD path t of
        Inl (err, t') \<Rightarrow> (Inl err, t')
      | Inr (root, d, name, rem, t1, rels) \<Rightarrow>
          (case fn root d name rem t1 of (r, t2) \<Rightarrow> (r, fold DecRef rels t2)))"
proof -
  obtain dir nm where sl: "SplitLast env path = (dir, nm)" by (cases "SplitLast env path")
  show ?thesis
  proof (cases "dir = ''/''")
    case True
    with sl show ?thesis
      by (simp add: fileOpAt_def fileOpAt_resolve_def RootDirectory_def split: prod.splits)
  next
    case nr: False
    show ?thesis
    proof (cases "dir = ''.'' \<and> dirFD = AT_FDCWD")
      case True
      with sl nr show ?thesis
        by (simp add: fileOpAt_def fileOpAt_resolve_def RootDirectory_def WorkingDirectory_def
            IncRef_fields split: prod.splits)
    next
      case False
      then have c: "(dir = ''.'' \<and> dirFD = AT_FDCWD) = False" by simp
      from sl nr show ?thesis
        by (simp add: fileOpAt_def fileOpAt_resolve_def fileOpOn_def c
            split: prod.splits sum.splits)
    qed
  qed
qed

lemma fold_DecRef_fields:
  "fs (fold DecRef rels t) = fs t" "creds (fold DecRef rels t) = creds t"
  "fdtable (fold DecRef rels t) = fdtable t" "signals (fold DecRef rels t) = signals t"
  "inotify (fold DecRef rels t) = inotify t" "fsroot (fold DecRef rels t) = fsroot t"
  "fsumask (fold DecRef rels t) = fsumask t" "cloexec (fold DecRef rels t) = cloexec t"
  by (induction rels arbitrary: t; simp add: DecRef_fields)+

lemma fileOpAt_resolve_keeps:
  assumes "fileOpAt_resolve env dirFD path t = Inr (root, d, name, rem, t1, rels)"
  shows "fs t1 = fs t" "creds t1 = creds t" "fdtable t1 = fdtable t" "inotify t1 = inotify t"
    "signals t1 = signals t"
proof -
  obtain dir nm where sl: "SplitLast env path = (dir, nm)" by (cases "SplitLast env path")
  have "fs t1 = fs t \<and> creds t1 = creds t \<and> fdtable t1 = fdtable t \<and> inotify t1 = inotify t
      \<and> signals t1 = signals t"
  proof (cases "dir = ''/'' \<or> (dir = ''.'' \<and> dirFD = AT_FDCWD)")
    case True
    with assms sl show ?thesis
      by (auto simp: fileOpAt_resolve_def IncRef_fields split: if_splits)
  next
    case False
    with assms sl obtain r where r: "fileOpOn_resolve env dirFD dir True t = Inr (r, d, rem, t1)"
      by (auto simp: fileOpAt_resolve_def split: sum.splits)
    from resolve_Inr_keeps [OF r] show ?thesis by simp
  qed
  then show "fs t1 = fs t" "creds t1 = creds t" "fdtable t1 = fdtable t" "inotify t1 = inotify t"
    "signals t1 = signals t" by simp_all
qed

lemma resolve_umask:
  "(case fileOpOn_resolve env dirFD path resolve t of
      Inl (err, t') \<Rightarrow> fsumask t' = fsumask t
    | Inr (root, d, rem, t1) \<Rightarrow> fsumask t1 = fsumask t)"
proof (cases "absolute path")
  case True
  then show ?thesis
    by (simp add: resolve_abs IncRef_fields DecRef_fields split: prod.splits sum.splits)
next
  case False
  show ?thesis
  proof (cases "dirFD = AT_FDCWD")
    case True
    with False show ?thesis
      by (simp add: resolve_cwd IncRef_fields DecRef_fields split: prod.splits sum.splits)
  next
    case fd: False
    show ?thesis
    proof (cases "fdtable t dirFD")
      case None
      with False fd show ?thesis by (simp add: resolve_fd)
    next
      case (Some f)
      with False fd show ?thesis
        by (simp add: resolve_fd IncRef_fields DecRef_fields split: prod.splits sum.splits)
    qed
  qed
qed

lemma fileOpAt_resolve_umask:
  assumes "fileOpAt_resolve env dirFD path t = Inr (root, d, name, rem, t1, rels)"
  shows "fsumask t1 = fsumask t"
proof -
  obtain dir nm where sl: "SplitLast env path = (dir, nm)" by (cases "SplitLast env path")
  show ?thesis
  proof (cases "dir = ''/'' \<or> (dir = ''.'' \<and> dirFD = AT_FDCWD)")
    case True
    with assms sl show ?thesis
      by (auto simp: fileOpAt_resolve_def IncRef_fields split: if_splits)
  next
    case False
    with assms sl obtain r where r: "fileOpOn_resolve env dirFD dir True t = Inr (r, d, rem, t1)"
      by (auto simp: fileOpAt_resolve_def split: sum.splits)
    with resolve_umask [where env = env and dirFD = dirFD and path = dir and resolve = True
        and t = t] show ?thesis by simp
  qed
qed

lemma step_excl:
  assumes "IsDir (StableAttrType env (fs (w_task w)) (w_parent w))"
    and "MountFindLink env (fs (w_task w)) (creds (w_task w)) root (Some (w_parent w))
           (w_name w) (w_rem w) = (Inr found, rem1)"
    and "flags AND O_EXCL \<noteq> 0"
  shows "createAt_step env flags root w =
           (Some (Return EEXIST),
            w\<lparr>w_rem := rem1, w_defers := DirentRef found # w_defers w,
              w_task := IncRef (DirentRef found) (w_task w)\<rparr>)"
  using assms by (simp add: createAt_step_def FindLink_def Let_def)

lemma finish_Return:
  "createAt_finish env flags mode fileFlags root (Return err, w) = (Inl err, w)"
  by (simp add: createAt_finish_def)

lemma mono_link:
  "budget_monotone env \<Longrightarrow> MountFindLink env f c root rel path rem = (x, rem') \<Longrightarrow> rem' \<le> rem"
  by (metis budget_monotone_def snd_conv)

lemma mono_inode:
  "budget_monotone env \<Longrightarrow> MountFindInode env f c root rel path rem = (x, rem') \<Longrightarrow> rem' \<le> rem"
  by (metis budget_monotone_def snd_conv)

text \<open>What a pass that goes around again has done.\<close>

lemma step_continue:
  assumes "createAt_step env flags root w = (None, w')"
  shows "\<exists>found rem1 path newParent.
           MountFindLink env (fs (w_task w)) (creds (w_task w)) root (Some (w_parent w))
             (w_name w) (w_rem w) = (Inr found, rem1)
           \<and> rem1 \<noteq> 0
           \<and> InodeReadlink env (fs (w_task w)) found = Inr path
           \<and> MountFindInode env (fs (w_task w)) (creds (w_task w)) root (Some (w_parent w))
               (fst (SplitLast env path)) (rem1 - 1) = (Inr newParent, w_rem w')
           \<and> w_parent w' = newParent \<and> w_name w' = snd (SplitLast env path)
           \<and> fs (w_task w') = fs (w_task w) \<and> creds (w_task w') = creds (w_task w)"
proof -
  obtain r rem1 t1 where fl: "FindLink env root (Some (w_parent w)) (w_name w) (w_rem w) (w_task w)
      = (r, rem1, t1)" by (cases "FindLink env root (Some (w_parent w)) (w_name w) (w_rem w) (w_task w)")
  from assms fl obtain found where r: "r = Inr found"
    by (cases r) (simp_all add: createAt_step_def split: if_splits)
  from fl r have ml: "MountFindLink env (fs (w_task w)) (creds (w_task w)) root (Some (w_parent w))
             (w_name w) (w_rem w) = (Inr found, rem1)" and t1: "t1 = IncRef (DirentRef found) (w_task w)"
    by (auto simp: FindLink_def split: prod.splits sum.splits)
  have k1: "fs t1 = fs (w_task w)" "creds t1 = creds (w_task w)"
    by (simp_all add: t1 IncRef_fields)
  from assms fl r obtain path where rl: "InodeReadlink env (fs t1) found = Inr path"
    and nz: "rem1 \<noteq> 0"
    by (cases "InodeReadlink env (fs t1) found")
       (auto simp: createAt_step_def Let_def split: if_splits sum.splits)
  obtain pp nn where sl: "SplitLast env path = (pp, nn)" by (cases "SplitLast env path")
  obtain r2 rem2 t2 where fi: "FindInode env root (Some (w_parent w)) pp (rem1 - 1) t1 = (r2, rem2, t2)"
    by (cases "FindInode env root (Some (w_parent w)) pp (rem1 - 1) t1")
  from assms fl r rl nz sl fi obtain np where r2: "r2 = Inr np"
    by (cases r2) (auto simp: createAt_step_def Let_def split: if_splits sum.splits)
  from fi r2 have mi: "MountFindInode env (fs t1) (creds t1) root (Some (w_parent w)) pp (rem1 - 1)
       = (Inr np, rem2)" and t2: "t2 = IncRef (DirentRef np) t1"
    by (auto simp: FindInode_def split: prod.splits sum.splits)
  from assms fl r rl nz sl fi r2 have w': "w' = w\<lparr>w_parent := np, w_name := nn, w_rem := rem2,
       w_defers := DirentRef np # DirentRef found # w_defers w, w_task := t2\<rparr>"
    by (auto simp: createAt_step_def Let_def split: if_splits sum.splits)
  show ?thesis
    using ml nz rl mi sl w' k1 t2 by (simp add: IncRef_fields)
qed

lemma step_decreases:
  assumes "budget_monotone env" "createAt_step env flags root w = (None, w')"
  shows "w_rem w' < w_rem w"
proof -
  from step_continue [OF assms(2)] obtain found rem1 path newParent where
    a: "MountFindLink env (fs (w_task w)) (creds (w_task w)) root (Some (w_parent w))
             (w_name w) (w_rem w) = (Inr found, rem1)" "rem1 \<noteq> 0"
       "MountFindInode env (fs (w_task w)) (creds (w_task w)) root (Some (w_parent w))
               (fst (SplitLast env path)) (rem1 - 1) = (Inr newParent, w_rem w')"
    by blast
  from mono_link [OF assms(1) a(1)] mono_inode [OF assms(1) a(3)] a(2)
  show ?thesis by arith
qed

lemma loop_terminates:
  "budget_monotone env \<Longrightarrow> w_rem w < fuel \<Longrightarrow> \<exists>y. createAt_loop fuel env flags root w = Some y"
proof (induction fuel arbitrary: w)
  case 0
  then show ?case by simp
next
  case (Suc n)
  obtain out w' where st: "createAt_step env flags root w = (out, w')"
    by (cases "createAt_step env flags root w")
  show ?case
  proof (cases out)
    case None
    with st Suc.prems have "w_rem w' < w_rem w" by (simp add: step_decreases)
    with Suc.prems have "w_rem w' < n" by arith
    from Suc.IH [OF Suc.prems(1) this] st None show ?thesis by simp
  next
    case (Some e)
    with st show ?thesis by simp
  qed
qed

lemma loop_fuel_mono:
  "createAt_loop n env flags root w = Some y \<Longrightarrow> createAt_loop (n + k) env flags root w = Some y"
proof (induction n arbitrary: w)
  case 0
  then show ?case by simp
next
  case (Suc n)
  then show ?case
    by (cases "createAt_step env flags root w") (auto split: option.splits)
qed

lemma hops_bounded:
  "budget_monotone env \<Longrightarrow> createAt_hops fuel env flags root w \<le> w_rem w"
proof (induction fuel arbitrary: w)
  case 0
  then show ?case by simp
next
  case (Suc n)
  obtain out w' where st: "createAt_step env flags root w = (out, w')"
    by (cases "createAt_step env flags root w")
  show ?case
  proof (cases out)
    case None
    with st Suc.prems have "w_rem w' < w_rem w" by (simp add: step_decreases)
    moreover from Suc.IH [OF Suc.prems] have "createAt_hops n env flags root w' \<le> w_rem w'" .
    ultimately show ?thesis using st None by simp
  next
    case (Some e)
    with st show ?thesis by simp
  qed
qed

lemma lookup_budget:
  "budget_monotone env \<Longrightarrow> lookup env resolve t rel path = (x, rem) \<Longrightarrow> rem \<le> MaxSymlinkTraversals"
  by (auto simp: lookup_def dest: mono_link mono_inode split: if_splits)

lemma resolve_budget:
  assumes m: "budget_monotone env"
    and r: "fileOpOn_resolve env dirFD path resolve t = Inr (root, d, rem, t1)"
  shows "rem \<le> MaxSymlinkTraversals"
proof (cases "absolute path")
  case True
  with r m show ?thesis
    by (auto simp: resolve_abs dest: lookup_budget split: prod.splits sum.splits)
next
  case False
  show ?thesis
  proof (cases "dirFD = AT_FDCWD")
    case True
    with False r m show ?thesis
      by (auto simp: resolve_cwd dest: lookup_budget split: prod.splits sum.splits)
  next
    case fd: False
    with False r m show ?thesis
      by (auto simp: resolve_fd dest: lookup_budget
          split: prod.splits sum.splits option.splits if_splits)
  qed
qed

lemma fileOpAt_resolve_budget:
  assumes m: "budget_monotone env"
    and r: "fileOpAt_resolve env dirFD path t = Inr (root, d, name, rem, t1, rels)"
  shows "rem \<le> MaxSymlinkTraversals"
proof -
  obtain dir nm where sl: "SplitLast env path = (dir, nm)" by (cases "SplitLast env path")
  show ?thesis
  proof (cases "dir = ''/'' \<or> (dir = ''.'' \<and> dirFD = AT_FDCWD)")
    case True
    with r sl show ?thesis
      by (auto simp: fileOpAt_resolve_def split: if_splits)
  next
    case False
    with r sl obtain r' where "fileOpOn_resolve env dirFD dir True t = Inr (r', d, rem, t1)"
      by (auto simp: fileOpAt_resolve_def split: sum.splits)
    from resolve_budget [OF m this] show ?thesis .
  qed
qed

lemma createAt_fn_fuel:
  assumes m: "budget_monotone env" and f: "rem < fuel"
  shows "createAt_fn fuel env flags mode ff root parent name rem t
           = createAt_fn (Suc rem) env flags mode ff root parent name rem t"
    and "fst (createAt_fn fuel env flags mode ff root parent name rem t) \<noteq> Inr None"
proof -
  let ?w = "\<lparr>w_parent = parent, w_name = name, w_rem = rem, w_defers = [], w_task = t\<rparr>"
  from loop_terminates [OF m, of ?w "Suc rem" flags root]
  obtain y where y: "createAt_loop (Suc rem) env flags root ?w = Some y" by auto
  from f obtain k where k: "fuel = Suc rem + k" by (metis less_iff_Suc_add add_Suc)
  from loop_fuel_mono [OF y, of k] k
  have y': "createAt_loop fuel env flags root ?w = Some y" by simp
  show "createAt_fn fuel env flags mode ff root parent name rem t
           = createAt_fn (Suc rem) env flags mode ff root parent name rem t"
    by (simp only: createAt_fn_def y y')
  show "fst (createAt_fn fuel env flags mode ff root parent name rem t) \<noteq> Inr None"
    by (simp add: createAt_fn_def y' split: prod.splits sum.splits)
qed

lemma createAt_total:
  assumes m: "budget_monotone env" and f: "MaxSymlinkTraversals < fuel"
  shows "\<exists>y. createAt fuel env dirFD addr flags mode t = Some y"
    and "createAt fuel env dirFD addr flags mode t
           = createAt (Suc MaxSymlinkTraversals) env dirFD addr flags mode t"
proof -
  have "(\<exists>y. createAt fuel env dirFD addr flags mode t = Some y)
      \<and> createAt fuel env dirFD addr flags mode t
           = createAt (Suc MaxSymlinkTraversals) env dirFD addr flags mode t"
  proof (cases "copyInPath env addr False")
    case (Inl err)
    then show ?thesis by (simp add: createAt_def)
  next
    case (Inr pd)
    obtain path dirPath where pd: "pd = (path, dirPath)" by (cases pd)
    show ?thesis
    proof (cases dirPath)
      case True
      with Inr pd show ?thesis by (simp add: createAt_def)
    next
      case False
      show ?thesis
      proof (cases "fileOpAt_resolve env dirFD path t")
        case (Inl bad)
        with Inr pd False show ?thesis
          by (simp add: createAt_def fileOpAt_eq split: prod.splits)
      next
        case r: (Inr x)
        obtain root parent name rem t1 rels where x: "x = (root, parent, name, rem, t1, rels)"
          by (cases x)
        from r x have rs: "fileOpAt_resolve env dirFD path t = Inr (root, parent, name, rem, t1, rels)"
          by simp
        from fileOpAt_resolve_budget [OF m rs] f have lt: "rem < fuel" "rem < Suc MaxSymlinkTraversals"
          by simp_all
        note e1 = createAt_fn_fuel [OF m lt(1)] and e2 = createAt_fn_fuel [OF m lt(2)]
        have eq: "createAt_fn fuel env flags mode ff root parent name rem t1
              = createAt_fn (Suc MaxSymlinkTraversals) env flags mode ff root parent name rem t1" for ff
          by (simp only: e1(1) e2(1))
        obtain res t2 where c: "createAt_fn fuel env flags mode
              ((linuxToFlags env flags)\<lparr>ff_LargeFile := True\<rparr>) root parent name rem t1 = (res, t2)"
          by (cases "createAt_fn fuel env flags mode
              ((linuxToFlags env flags)\<lparr>ff_LargeFile := True\<rparr>) root parent name rem t1")
        with e1(2) [of flags mode "(linuxToFlags env flags)\<lparr>ff_LargeFile := True\<rparr>" root parent name t1]
        have nn: "res \<noteq> Inr None" by simp
        from c eq have c': "createAt_fn (Suc MaxSymlinkTraversals) env flags mode
              ((linuxToFlags env flags)\<lparr>ff_LargeFile := True\<rparr>) root parent name rem t1 = (res, t2)"
          by simp
        from nn show ?thesis
          by (cases res) (auto simp: createAt_def Inr pd False fileOpAt_eq rs c c' Let_def
              split: option.splits)
      qed
    qed
  qed
  then show "\<exists>y. createAt fuel env dirFD addr flags mode t = Some y"
    and "createAt fuel env dirFD addr flags mode t
           = createAt (Suc MaxSymlinkTraversals) env dirFD addr flags mode t" by blast+
qed

lemma step_budget_zero:
  assumes "IsDir (StableAttrType env (fs (w_task w)) (w_parent w))"
    and "MountFindLink env (fs (w_task w)) (creds (w_task w)) root (Some (w_parent w))
           (w_name w) (w_rem w) = (Inr found, 0)"
    and "flags AND O_EXCL = 0"
    and "IsSymlink (StableAttrType env (fs (w_task w)) found)"
    and "flags AND O_NOFOLLOW = 0"
    and "InodeGetlink env (fs (w_task w)) found = Inl ErrResolveViaReadlink"
  shows "fst (createAt_step env flags root w) = Some (Return ELOOP)"
    and "createAt_step (env\<lparr>InodeReadlink := rl\<rparr>) flags root w = createAt_step env flags root w"
  using assms by (simp_all add: createAt_step_def FindLink_def Let_def IncRef_fields)

lemma finish_BreakErr_ENOENT:
  "createAt_finish env flags mode ff root (BreakErr ENOENT, w) =
     (case createAt_create env mode ff root w of
        (Inl err, w1) \<Rightarrow> (Inl err, w1)
      | (Inr (found, newFile), w1) \<Rightarrow>
          (case installFD env flags newFile (w_task w1) of
             (Inl err, t2) \<Rightarrow> (Inl err, w1\<lparr>w_task := t2\<rparr>)
           | (Inr newFD, t2) \<Rightarrow> (Inr newFD, w1\<lparr>w_task := InotifyEvent found IN_OPEN t2\<rparr>)))"
  by (simp add: createAt_finish_def)

lemma run_defers_fields:
  "fs (run_defers ds t) = fs t" "fdtable (run_defers ds t) = fdtable t"
  "inotify (run_defers ds t) = inotify t"
  by (simp_all add: run_defers_def fold_DecRef_fields)

lemma installFD_fields:
  "fs (snd (installFD env flags file t)) = fs t"
  "fst (installFD env flags file t) = NewFDFrom env (fdtable t) 0"
  "fst (installFD env flags file t) = Inr fd \<Longrightarrow> fdtable (snd (installFD env flags file t)) fd = Some file"
  by (auto simp: installFD_def IncRef_fields split: sum.splits)

lemma InotifyEvent_fields:
  "fs (InotifyEvent d ev t) = fs t" "fdtable (InotifyEvent d ev t) = fdtable t"
  by (simp_all add: InotifyEvent_def)

lemma tiny_monotone: "budget_monotone (tiny_env mem)"
  by (simp add: budget_monotone_def tiny_env_def tiny_find_def Let_def split: option.splits)

lemmas tiny_link_defs = tiny_links_def tiny_l1_def tiny_linked_def tiny_walk_def
  tiny_Readlink_def tiny_SplitLast_def IsDir_def IsSymlink_def

lemmas createAt_defs = createAt_def fileOpAt_def createAt_fn_def createAt_step_def
  createAt_finish_def createAt_create_def createAt_open_def installFD_def run_defers_def
  copyInPath_def RootDirectory_def WorkingDirectory_def FindLink_def FindInode_def
  IncRef_fields DecRef_fields InotifyEvent_fields tiny_Create_def tiny_NewFDFrom_def
  tiny_l2_def tiny_linked_denied_def

subsection \<open>O_EXCL on an existing name\<close>

text \<open>
  C4. An \<open>open\<close> with O_CREAT and O_EXCL whose path was copied in without a
  trailing slash, whose parent resolves to a directory, and whose final name the
  lookup under that parent finds (whatever the entry is: a symlink, dangling or
  not, is not looked into) fails with EEXIST on the first pass of the loop; the
  backend's state, the descriptor table and the inotify events are those before
  the call.
\<close>

theorem createAt_excl_exists:
  assumes cp: "copyInPath env addr False = Inr (path, False)"
    and rs: "fileOpAt_resolve env dirFD path t = Inr (root, parent, name, rem, t1, rels)"
    and dir: "IsDir (StableAttrType env (fs t) parent)"
    and fl: "MountFindLink env (fs t) (creds t) root (Some parent) name rem = (Inr found, rem1)"
    and ex: "flags AND O_EXCL \<noteq> 0"
  shows "\<exists>t'. createAt (Suc n) env dirFD addr flags mode t = Some (Inl EEXIST, t')
           \<and> fs t' = fs t \<and> fdtable t' = fdtable t \<and> inotify t' = inotify t"
proof -
  note k = fileOpAt_resolve_keeps [OF rs]
  let ?w = "\<lparr>w_parent = parent, w_name = name, w_rem = rem, w_defers = [], w_task = t1\<rparr>"
  have st: "createAt_step env flags root ?w =
           (Some (Return EEXIST),
            ?w\<lparr>w_rem := rem1, w_defers := DirentRef found # w_defers ?w,
              w_task := IncRef (DirentRef found) (w_task ?w)\<rparr>)"
    by (rule step_excl) (simp_all add: k dir fl ex)
  have fn: "createAt_fn (Suc n) env flags mode ff root parent name rem t1
        = (Inl EEXIST, DecRef (DirentRef found) (IncRef (DirentRef found) t1))" for ff
    by (simp add: createAt_fn_def st finish_Return run_defers_def)
  have "createAt (Suc n) env dirFD addr flags mode t
        = Some (Inl EEXIST,
                fold DecRef rels (DecRef (DirentRef found) (IncRef (DirentRef found) t1)))"
    by (simp add: createAt_def cp fileOpAt_eq rs fn)
  then show ?thesis
    by (simp add: fold_DecRef_fields DecRef_fields IncRef_fields k)
qed

theorem createAt_excl_exists_witness:
  "copyInPath tiny_l1 0 False = Inr (''l1'', False)
   \<and> fileOpAt_resolve tiny_l1 AT_FDCWD ''l1'' tiny_linked
       = Inr (0, 1, ''l1'', 40, IncRef (DirentRef 0) (IncRef (DirentRef 1) tiny_linked),
              [DirentRef 1, DirentRef 0])
   \<and> IsDir (StableAttrType tiny_l1 (fs tiny_linked) 1)
   \<and> MountFindLink tiny_l1 (fs tiny_linked) (creds tiny_linked) 0 (Some 1) ''l1'' 40 = (Inr 2, 40)
   \<and> IsSymlink (StableAttrType tiny_l1 (fs tiny_linked) 2)
   \<and> (0xC1 :: 64 word) AND O_EXCL \<noteq> 0
   \<and> map_option fst (createAt (Suc 0) tiny_l1 AT_FDCWD 0 0xC1 0x1A4 tiny_linked)
       = Some (Inl EEXIST)
   \<and> map_option (fs \<circ> snd) (createAt (Suc 0) tiny_l1 AT_FDCWD 0 0xC1 0x1A4 tiny_linked)
       = Some tiny_links"
  using createAt_excl_exists [where env = tiny_l1 and addr = 0 and path = "''l1''"
      and dirFD = AT_FDCWD and t = tiny_linked and root = 0 and parent = 1 and name = "''l1''"
      and rem = 40 and ?t1.0 = "IncRef (DirentRef 0) (IncRef (DirentRef 1) tiny_linked)"
      and rels = "[DirentRef 1, DirentRef 0]" and found = 2 and ?rem1.0 = 40 and flags = "0xC1"
      and n = 0 and mode = "0x1A4"]
  by (simp add: createAt_defs fileOpAt_resolve_def tiny_link_defs tiny_defs abi_defs)

subsection \<open>The loop ends\<close>

text \<open>
  C5. With lookups that never hand back more budget than they were given: the
  call returns for every fuel above the maximum budget, with the same result as for
  the maximum plus one; the loop goes around at most as many times as the budget it
  starts with, and the closure starts with at most the maximum (40); a pass that
  goes around again has read the link's text with a budget that was not zero,
  handed the lookup of the new parent that budget less one, and goes on with a
  strictly smaller budget; a pass that needs the link's text with the budget at
  zero returns ELOOP and does not consult \<open>Readlink\<close>.
\<close>

theorem createAt_loop_bounded:
  "budget_monotone env \<longrightarrow>
     (MaxSymlinkTraversals < fuel \<longrightarrow>
        (\<exists>y. createAt fuel env dirFD addr flags mode t = Some y)
        \<and> createAt fuel env dirFD addr flags mode t
            = createAt (Suc MaxSymlinkTraversals) env dirFD addr flags mode t)
     \<and> createAt_hops fuel env flags root w \<le> w_rem w
     \<and> (fileOpAt_resolve env dirFD path t = Inr (root, parent, name, rem, t1, rels)
          \<longrightarrow> rem \<le> MaxSymlinkTraversals)
     \<and> (createAt_step env flags root w = (None, w') \<longrightarrow>
          w_rem w' < w_rem w
          \<and> (\<exists>found rem1 text newParent.
                MountFindLink env (fs (w_task w)) (creds (w_task w)) root (Some (w_parent w))
                  (w_name w) (w_rem w) = (Inr found, rem1)
                \<and> rem1 \<noteq> 0
                \<and> InodeReadlink env (fs (w_task w)) found = Inr text
                \<and> MountFindInode env (fs (w_task w)) (creds (w_task w)) root
                    (Some (w_parent w)) (fst (SplitLast env text)) (rem1 - 1)
                   = (Inr newParent, w_rem w')))
     \<and> (IsDir (StableAttrType env (fs (w_task w)) (w_parent w))
          \<and> MountFindLink env (fs (w_task w)) (creds (w_task w)) root (Some (w_parent w))
               (w_name w) (w_rem w) = (Inr found0, 0)
          \<and> flags AND O_EXCL = 0
          \<and> IsSymlink (StableAttrType env (fs (w_task w)) found0)
          \<and> flags AND O_NOFOLLOW = 0
          \<and> InodeGetlink env (fs (w_task w)) found0 = Inl ErrResolveViaReadlink
        \<longrightarrow> fst (createAt_step env flags root w) = Some (Return ELOOP)
            \<and> (\<forall>rl. createAt_step (env\<lparr>InodeReadlink := rl\<rparr>) flags root w
                      = createAt_step env flags root w))"
proof (intro impI conjI allI)
  assume m: "budget_monotone env"
  show "createAt_hops fuel env flags root w \<le> w_rem w"
    by (rule hops_bounded [OF m])
  {
    assume f: "MaxSymlinkTraversals < fuel"
    show "\<exists>y. createAt fuel env dirFD addr flags mode t = Some y"
      by (rule createAt_total(1) [OF m f])
    show "createAt fuel env dirFD addr flags mode t
            = createAt (Suc MaxSymlinkTraversals) env dirFD addr flags mode t"
      by (rule createAt_total(2) [OF m f])
  }
  {
    assume "fileOpAt_resolve env dirFD path t = Inr (root, parent, name, rem, t1, rels)"
    from fileOpAt_resolve_budget [OF m this] show "rem \<le> MaxSymlinkTraversals" .
  }
  {
    assume s: "createAt_step env flags root w = (None, w')"
    from step_decreases [OF m s] show "w_rem w' < w_rem w" .
    from step_continue [OF s]
    show "\<exists>found rem1 text newParent.
                MountFindLink env (fs (w_task w)) (creds (w_task w)) root (Some (w_parent w))
                  (w_name w) (w_rem w) = (Inr found, rem1)
                \<and> rem1 \<noteq> 0
                \<and> InodeReadlink env (fs (w_task w)) found = Inr text
                \<and> MountFindInode env (fs (w_task w)) (creds (w_task w)) root
                    (Some (w_parent w)) (fst (SplitLast env text)) (rem1 - 1)
                   = (Inr newParent, w_rem w')"
      by blast
  }
  {
    fix rl
    assume z: "IsDir (StableAttrType env (fs (w_task w)) (w_parent w))
          \<and> MountFindLink env (fs (w_task w)) (creds (w_task w)) root (Some (w_parent w))
               (w_name w) (w_rem w) = (Inr found0, 0)
          \<and> flags AND O_EXCL = 0
          \<and> IsSymlink (StableAttrType env (fs (w_task w)) found0)
          \<and> flags AND O_NOFOLLOW = 0
          \<and> InodeGetlink env (fs (w_task w)) found0 = Inl ErrResolveViaReadlink"
    then show "fst (createAt_step env flags root w) = Some (Return ELOOP)"
      by (simp add: step_budget_zero(1))
    from z show "createAt_step (env\<lparr>InodeReadlink := rl\<rparr>) flags root w
                      = createAt_step env flags root w"
      by (simp add: step_budget_zero(2))
  }
qed

theorem createAt_loop_bounded_witness:
  "budget_monotone tiny_l1 \<and> MaxSymlinkTraversals < 41
   \<and> (\<exists>y. createAt 41 tiny_l1 AT_FDCWD 0 0x41 0x1A4 tiny_linked = Some y)
   \<and> createAt_hops 41 tiny_l1 0x41 0 tiny_walk \<le> w_rem tiny_walk
   \<and> w_rem tiny_walk = 40
   \<and> fst (createAt_step tiny_l1 0x41 0 tiny_walk) = None
   \<and> w_rem (snd (createAt_step tiny_l1 0x41 0 tiny_walk)) = 39
   \<and> w_name (snd (createAt_step tiny_l1 0x41 0 tiny_walk)) = ''l2''
   \<and> fst (createAt_step tiny_l1 0x41 0 (tiny_walk\<lparr>w_rem := 0\<rparr>)) = Some (Return ELOOP)"
proof -
  have m: "budget_monotone tiny_l1"
    by (simp add: tiny_l1_def tiny_monotone)
  note b1 = createAt_loop_bounded [where env = tiny_l1 and fuel = 41 and dirFD = AT_FDCWD
      and addr = 0 and flags = "0x41" and mode = "0x1A4" and t = tiny_linked and root = 0
      and w = tiny_walk and w' = "snd (createAt_step tiny_l1 0x41 0 tiny_walk)"
      and path = "''l1''" and parent = 1 and name = "''l1''" and rem = 40
      and ?t1.0 = "IncRef (DirentRef 0) (IncRef (DirentRef 1) tiny_linked)"
      and rels = "[DirentRef 1, DirentRef 0]" and ?found0.0 = 2, THEN mp, OF m]
  note b2 = createAt_loop_bounded [where env = tiny_l1 and fuel = 41 and dirFD = AT_FDCWD
      and addr = 0 and flags = "0x41" and mode = "0x1A4" and t = tiny_linked and root = 0
      and w = "tiny_walk\<lparr>w_rem := 0\<rparr>"
      and w' = "snd (createAt_step tiny_l1 0x41 0 tiny_walk)"
      and path = "''l1''" and parent = 1 and name = "''l1''" and rem = 40
      and ?t1.0 = "IncRef (DirentRef 0) (IncRef (DirentRef 1) tiny_linked)"
      and rels = "[DirentRef 1, DirentRef 0]" and ?found0.0 = 2, THEN mp, OF m]
  show ?thesis
    using m b1 b2
    by (simp add: createAt_step_def FindLink_def FindInode_def IncRef_fields
        fileOpAt_resolve_def tiny_link_defs tiny_defs abi_defs)
qed

subsection \<open>A symlink whose target does not exist\<close>

text \<open>
  C3, as amended. For an \<open>open\<close> with O_CREAT, without O_EXCL and O_NOFOLLOW, whose
  final name is a symlink that resolves through its text (budget left), where the
  directory of the target resolves to a directory and the target's name is not
  found in it: the call returns; if the check for write and execute permission on
  the target's directory refuses, its error is returned and the backend's state is
  unchanged; otherwise the one mutation asked of the backend is \<open>Create\<close> of the
  target's name in the target's directory (never of the link's name), and the
  call returns the error of \<open>Create\<close>, or installs the new file and returns its
  descriptor.
\<close>

theorem createAt_dangling_symlink:
  assumes cp: "copyInPath env addr False = Inr (path, False)"
    and rs: "fileOpAt_resolve env dirFD path t = Inr (root, parent, name, rem, t1, rels)"
    and nx: "flags AND O_EXCL = 0" and nf: "flags AND O_NOFOLLOW = 0"
    and pd: "IsDir (StableAttrType env (fs t) parent)"
    and fl: "MountFindLink env (fs t) (creds t) root (Some parent) name rem = (Inr link, rem1)"
    and sy: "IsSymlink (StableAttrType env (fs t) link)"
    and gl: "InodeGetlink env (fs t) link = Inl ErrResolveViaReadlink"
    and bz: "rem1 \<noteq> 0"
    and rl: "InodeReadlink env (fs t) link = Inr target"
    and sl: "SplitLast env target = (tdir, tname)"
    and fi: "MountFindInode env (fs t) (creds t) root (Some parent) tdir (rem1 - 1)
               = (Inr tparent, rem2)"
    and td: "IsDir (StableAttrType env (fs t) tparent)"
    and ms: "MountFindLink env (fs t) (creds t) root (Some tparent) tname rem2 = (Inl ENOENT, rem3)"
  shows "\<exists>r t'. createAt (Suc (Suc n)) env dirFD addr flags mode t = Some (r, t')
          \<and> (case InodeCheckPermission env (fs t) (creds t) tparent
                     \<lparr>pm_Read = False, pm_Write = True, pm_Execute = True\<rparr> of
                Some err \<Rightarrow> r = Inl err \<and> fs t' = fs t
              | None \<Rightarrow>
                  (case DirentCreate env (fs t) (creds t) root tparent tname
                          ((linuxToFlags env flags)\<lparr>ff_LargeFile := True\<rparr>)
                          (FilePermsFromMode env (mode AND NOT (ucast (fsumask t)))) of
                     (Inl err, fs1) \<Rightarrow> r = Inl err \<and> fs t' = fs1
                   | (Inr newFile, fs1) \<Rightarrow>
                       r = NewFDFrom env (fdtable t) 0 \<and> fs t' = fs1
                       \<and> (case r of Inl err \<Rightarrow> fdtable t' = fdtable t
                           | Inr fd \<Rightarrow> fdtable t' fd = Some newFile)))"
proof -
  note k = fileOpAt_resolve_keeps [OF rs]
  let ?ff = "(linuxToFlags env flags)\<lparr>ff_LargeFile := True\<rparr>"
  let ?w0 = "\<lparr>w_parent = parent, w_name = name, w_rem = rem, w_defers = [], w_task = t1\<rparr>"
  let ?t2 = "IncRef (DirentRef tparent) (IncRef (DirentRef link) t1)"
  let ?w1 = "\<lparr>w_parent = tparent, w_name = tname, w_rem = rem2,
              w_defers = [DirentRef tparent, DirentRef link], w_task = ?t2\<rparr>"
  let ?w2 = "\<lparr>w_parent = tparent, w_name = tname, w_rem = rem3,
              w_defers = [DirentRef tparent, DirentRef link], w_task = ?t2\<rparr>"
  have k2: "fs ?t2 = fs t" "creds ?t2 = creds t" "fdtable ?t2 = fdtable t" "fsumask ?t2 = fsumask t"
    using rs by (simp_all add: IncRef_fields k fileOpAt_resolve_umask)
  have s1: "createAt_step env flags root ?w0 = (None, ?w1)"
    using pd fl sy gl bz rl sl fi nx nf
    by (simp add: createAt_step_def FindLink_def FindInode_def IncRef_fields k Let_def)
  have s2: "createAt_step env flags root ?w1 = (Some (BreakErr ENOENT), ?w2)"
    using td ms by (simp add: createAt_step_def FindLink_def k2)
  have lp: "createAt_loop (Suc (Suc n)) env flags root ?w0 = Some (BreakErr ENOENT, ?w2)"
    by (simp add: s1 s2)
  obtain r t2 where fn: "createAt_fn (Suc (Suc n)) env flags mode ?ff root parent name rem t1 = (r, t2)"
    by (cases "createAt_fn (Suc (Suc n)) env flags mode ?ff root parent name rem t1")
  show ?thesis
  proof (cases "InodeCheckPermission env (fs t) (creds t) tparent
                     \<lparr>pm_Read = False, pm_Write = True, pm_Execute = True\<rparr>")
    case (Some err)
    then have "createAt_fn (Suc (Suc n)) env flags mode ?ff root parent name rem t1
        = (Inl err, run_defers [DirentRef tparent, DirentRef link] ?t2)"
      by (simp add: createAt_fn_def s1 s2 finish_BreakErr_ENOENT createAt_create_def k2)
    then have "createAt (Suc (Suc n)) env dirFD addr flags mode t
        = Some (Inl err, fold DecRef rels (run_defers [DirentRef tparent, DirentRef link] ?t2))"
      by (simp add: createAt_def cp fileOpAt_eq rs)
    with Some show ?thesis
      by (simp add: fold_DecRef_fields run_defers_fields k2)
  next
    case None
    obtain cr fs1 where dc: "DirentCreate env (fs t) (creds t) root tparent tname ?ff
        (FilePermsFromMode env (mode AND NOT (ucast (fsumask t)))) = (cr, fs1)"
      by (cases "DirentCreate env (fs t) (creds t) root tparent tname ?ff
        (FilePermsFromMode env (mode AND NOT (ucast (fsumask t))))")
    show ?thesis
    proof (cases cr)
      case (Inl err)
      with None dc have "createAt_fn (Suc (Suc n)) env flags mode ?ff root parent name rem t1
        = (Inl err, run_defers [DirentRef tparent, DirentRef link] (?t2\<lparr>fs := fs1\<rparr>))"
        by (simp add: createAt_fn_def s1 s2 finish_BreakErr_ENOENT createAt_create_def k2)
      then have "createAt (Suc (Suc n)) env dirFD addr flags mode t
        = Some (Inl err, fold DecRef rels
                 (run_defers [DirentRef tparent, DirentRef link] (?t2\<lparr>fs := fs1\<rparr>)))"
        by (simp add: createAt_def cp fileOpAt_eq rs)
      with None dc Inl show ?thesis
        by (simp add: fold_DecRef_fields run_defers_fields)
    next
      case (Inr newFile)
      let ?t3 = "IncRef (FileRef (file_id newFile)) (?t2\<lparr>fs := fs1\<rparr>)"
      let ?ds = "[FileRef (file_id newFile), DirentRef tparent, DirentRef link]"
      from None dc Inr have cc: "createAt_create env mode ?ff root ?w2
          = (Inr (file_Dirent newFile, newFile), ?w2\<lparr>w_defers := ?ds, w_task := ?t3\<rparr>)"
        by (simp add: createAt_create_def k2)
      have t3: "fs ?t3 = fs1" "fdtable ?t3 = fdtable t"
        by (simp_all add: IncRef_fields k)
      show ?thesis
      proof (cases "NewFDFrom env (fdtable t) 0")
        case e: (Inl err)
        then have "installFD env flags newFile ?t3 = (Inl err, ?t3)"
          by (simp add: installFD_def t3)
        then have "createAt_fn (Suc (Suc n)) env flags mode ?ff root parent name rem t1
            = (Inl err, run_defers ?ds ?t3)"
          by (simp add: createAt_fn_def s1 s2 finish_BreakErr_ENOENT cc)
        then have "createAt (Suc (Suc n)) env dirFD addr flags mode t
            = Some (Inl err, fold DecRef rels (run_defers ?ds ?t3))"
          by (simp add: createAt_def cp fileOpAt_eq rs)
        with None dc Inr e show ?thesis
          by (simp add: fold_DecRef_fields run_defers_fields t3)
      next
        case f: (Inr fd)
        define t4 where "t4 = snd (installFD env flags newFile ?t3)"
        from f have i1: "fst (installFD env flags newFile ?t3) = Inr fd"
          by (simp add: installFD_fields(2) t3)
        then have i: "installFD env flags newFile ?t3 = (Inr fd, t4)"
          by (simp add: t4_def prod_eq_iff)
        have t4: "fs t4 = fs1" "fdtable t4 fd = Some newFile"
          using installFD_fields(3) [OF i1] by (simp_all add: t4_def installFD_fields(1) t3)
        from i have "createAt_fn (Suc (Suc n)) env flags mode ?ff root parent name rem t1
            = (Inr (Some fd), run_defers ?ds (InotifyEvent (file_Dirent newFile) IN_OPEN t4))"
          by (simp add: createAt_fn_def s1 s2 finish_BreakErr_ENOENT cc)
        then have "createAt (Suc (Suc n)) env dirFD addr flags mode t
            = Some (Inr fd, fold DecRef rels
                      (run_defers ?ds (InotifyEvent (file_Dirent newFile) IN_OPEN t4)))"
          by (simp add: createAt_def cp fileOpAt_eq rs)
        with None dc Inr f t4 show ?thesis
          by (simp add: fold_DecRef_fields run_defers_fields InotifyEvent_fields)
      qed
    qed
  qed
qed

theorem createAt_dangling_symlink_witness:
  "copyInPath tiny_l2 0 False = Inr (''l2'', False)
   \<and> fileOpAt_resolve tiny_l2 AT_FDCWD ''l2'' tiny_linked
       = Inr (0, 1, ''l2'', 40, IncRef (DirentRef 0) (IncRef (DirentRef 1) tiny_linked),
              [DirentRef 1, DirentRef 0])
   \<and> (0x41 :: 64 word) AND O_EXCL = 0 \<and> (0x41 :: 64 word) AND O_NOFOLLOW = 0
   \<and> IsDir (StableAttrType tiny_l2 (fs tiny_linked) 1)
   \<and> MountFindLink tiny_l2 (fs tiny_linked) (creds tiny_linked) 0 (Some 1) ''l2'' 40 = (Inr 3, 40)
   \<and> IsSymlink (StableAttrType tiny_l2 (fs tiny_linked) 3)
   \<and> InodeGetlink tiny_l2 (fs tiny_linked) 3 = Inl ErrResolveViaReadlink
   \<and> InodeReadlink tiny_l2 (fs tiny_linked) 3 = Inr ''f''
   \<and> SplitLast tiny_l2 ''f'' = (''.'', ''f'')
   \<and> MountFindInode tiny_l2 (fs tiny_linked) (creds tiny_linked) 0 (Some 1) ''.'' (40 - 1)
       = (Inr 1, 39)
   \<and> MountFindLink tiny_l2 (fs tiny_linked) (creds tiny_linked) 0 (Some 1) ''f'' 39
       = (Inl ENOENT, 39)
   \<and> InodeCheckPermission tiny_l2 (fs tiny_linked) (creds tiny_linked) 1
        \<lparr>pm_Read = False, pm_Write = True, pm_Execute = True\<rparr> = None
   \<and> map_option fst (createAt (Suc (Suc 0)) tiny_l2 AT_FDCWD 0 0x41 0x1A4 tiny_linked)
       = Some (Inr 0)
   \<and> map_option (\<lambda>y. MountFindLink tiny_l2 (fs (snd y)) (creds tiny_linked) 0 (Some 1) ''f'' 40)
        (createAt (Suc (Suc 0)) tiny_l2 AT_FDCWD 0 0x41 0x1A4 tiny_linked)
       = Some (Inr 4, 40)
   \<and> map_option (\<lambda>y. StableAttrType tiny_l2 (fs (snd y)) 4)
        (createAt (Suc (Suc 0)) tiny_l2 AT_FDCWD 0 0x41 0x1A4 tiny_linked)
       = Some Regular
   \<and> map_option (\<lambda>y. MountFindLink tiny_l2 (fs (snd y)) (creds tiny_linked) 0 (Some 1) ''l2'' 40)
        (createAt (Suc (Suc 0)) tiny_l2 AT_FDCWD 0 0x41 0x1A4 tiny_linked)
       = Some (Inr 3, 40)
   \<and> map_option (\<lambda>y. InodeReadlink tiny_l2 (fs (snd y)) 3)
        (createAt (Suc (Suc 0)) tiny_l2 AT_FDCWD 0 0x41 0x1A4 tiny_linked)
       = Some (Inr ''f'')"
  using createAt_dangling_symlink [where env = tiny_l2 and addr = 0 and path = "''l2''"
      and dirFD = AT_FDCWD and t = tiny_linked and root = 0 and parent = 1 and name = "''l2''"
      and rem = 40 and ?t1.0 = "IncRef (DirentRef 0) (IncRef (DirentRef 1) tiny_linked)"
      and rels = "[DirentRef 1, DirentRef 0]" and link = 3 and ?rem1.0 = 40 and flags = "0x41"
      and target = "''f''" and tdir = "''.''" and tname = "''f''" and tparent = 1 and ?rem2.0 = 39
      and ?rem3.0 = 39 and n = 0 and mode = "0x1A4"]
  by (simp add: createAt_defs fileOpAt_resolve_def tiny_link_defs tiny_defs abi_defs)

text \<open>
  The claim as stated fails where the target's directory refuses the write
  permission: the final name is a symlink whose target does not exist, the call
  fails with EACCES and nothing is created.
\<close>

theorem createAt_dangling_symlink_counterexample:
  "MountFindLink tiny_l2 (fs tiny_linked_denied) (creds tiny_linked_denied) 0 (Some 1) ''l2'' 40
     = (Inr 3, 40)
   \<and> IsSymlink (StableAttrType tiny_l2 (fs tiny_linked_denied) 3)
   \<and> InodeReadlink tiny_l2 (fs tiny_linked_denied) 3 = Inr ''f''
   \<and> MountFindLink tiny_l2 (fs tiny_linked_denied) (creds tiny_linked_denied) 0 (Some 1) ''f'' 39
     = (Inl ENOENT, 39)
   \<and> (0x41 :: 64 word) AND O_EXCL = 0 \<and> (0x41 :: 64 word) AND O_NOFOLLOW = 0
   \<and> map_option fst (createAt (Suc (Suc 0)) tiny_l2 AT_FDCWD 0 0x41 0x1A4 tiny_linked_denied)
       = Some (Inl EACCES)
   \<and> map_option (fs \<circ> snd) (createAt (Suc (Suc 0)) tiny_l2 AT_FDCWD 0 0x41 0x1A4 tiny_linked_denied)
       = Some (fs tiny_linked_denied)"
  by (simp add: createAt_defs tiny_link_defs tiny_defs abi_defs)

text \<open>
  A link whose text names a directory that does not exist (\<open>l3\<close> with text
  \<open>d/f\<close>): the lookup of the target's directory fails with ENOENT, the loop is
  left with that error, and the creation is asked of the link's own directory
  under the link's own name; this backend answers EEXIST.
\<close>

lemma createAt_missing_target_directory:
  "MountFindLink (tiny_env (\<lambda>a. ''l3'')) tiny_nodir (tiny_creds 1000 0) 0 (Some 1) ''l3'' 40
     = (Inr 5, 40)
   \<and> InodeReadlink (tiny_env (\<lambda>a. ''l3'')) tiny_nodir 5 = Inr ''d/f''
   \<and> SplitLast (tiny_env (\<lambda>a. ''l3'')) ''d/f'' = (''d'', ''f'')
   \<and> MountFindInode (tiny_env (\<lambda>a. ''l3'')) tiny_nodir (tiny_creds 1000 0) 0 (Some 1) ''d'' 39
     = (Inl ENOENT, 39)
   \<and> map_option fst
        (createAt (Suc (Suc 0)) (tiny_env (\<lambda>a. ''l3'')) AT_FDCWD 0 0x41 0x1A4
           (tiny_task tiny_nodir (tiny_creds 1000 0)))
       = Some (Inl EEXIST)
   \<and> map_option fst
        (createAt (Suc (Suc 0))
           ((tiny_env (\<lambda>a. ''l3''))
              \<lparr>DirentCreate := (\<lambda>f c root parent name flags perms.
                   (Inl (if parent = 1 \<and> name = ''l3'' then EROFS else EIO), f))\<rparr>)
           AT_FDCWD 0 0x41 0x1A4 (tiny_task tiny_nodir (tiny_creds 1000 0)))
       = Some (Inl EROFS)"
  by (simp add: createAt_defs tiny_nodir_def tiny_link_defs tiny_defs abi_defs)

section \<open>The references of fileOpAt\<close>

text \<open>
  The same for \<open>fileOpAt\<close>: the references in \<open>rels\<close> (on its fast paths the root,
  or the working directory and the root; otherwise the dirent \<open>fileOpOn\<close> found)
  are outstanding when the closure is called and released once each after it; the
  parent handed to the closure is among them.
\<close>

lemma fold_DecRef_refs:
  "refs (fold DecRef rels t) x = refs t x - int (count (mset rels) x)"
  by (induction rels arbitrary: t) (simp_all add: DecRef_fields)

lemma fold_DecRef_reflog:
  "reflog (fold DecRef rels t) = reflog t @ map Release rels"
  by (induction rels arbitrary: t) (simp_all add: DecRef_fields)

lemma acquired_Release: "acquired (map Release rels) = {#}"
  by (induction rels) simp_all

lemma released_Release: "released (map Release rels) = mset rels"
  by (induction rels) simp_all

lemma fileOpAt_resolve_references:
  "(case fileOpAt_resolve env dirFD path t of
      Inl (err, t') \<Rightarrow>
        refs t' = refs t
        \<and> (\<exists>evs. reflog t' = reflog t @ evs \<and> acquired evs = released evs)
    | Inr (root, d, name, rem, t1, rels) \<Rightarrow>
        root = fsroot t
        \<and> DirentRef d \<in> set rels
        \<and> (\<forall>x. refs t1 x = refs t x + int (count (mset rels) x))
        \<and> (\<exists>evs. reflog t1 = reflog t @ evs \<and> acquired evs = mset rels + released evs))"
proof -
  obtain dir nm where sl: "SplitLast env path = (dir, nm)" by (cases "SplitLast env path")
  show ?thesis
  proof (cases "dir = ''/''")
    case True
    with sl show ?thesis
      by (simp add: fileOpAt_resolve_def IncRef_fields)
  next
    case nr: False
    show ?thesis
    proof (cases "dir = ''.'' \<and> dirFD = AT_FDCWD")
      case True
      with sl nr show ?thesis
        by (simp add: fileOpAt_resolve_def IncRef_fields)
    next
      case False
      then have c: "(dir = ''.'' \<and> dirFD = AT_FDCWD) = False" by simp
      from sl nr resolve_references [where env = env and dirFD = dirFD and path = dir
          and resolve = True and t = t]
      show ?thesis
        by (auto simp: fileOpAt_resolve_def c split: prod.splits sum.splits)
    qed
  qed
qed

lemma fileOpAt_references:
  "(case fileOpAt_resolve env dirFD path t of
      Inl (err, t') \<Rightarrow>
        fileOpAt env dirFD path fn t = (Inl err, t')
        \<and> refs t' = refs t
        \<and> (\<exists>evs. reflog t' = reflog t @ evs \<and> acquired evs = released evs)
    | Inr (root, d, name, rem, t1, rels) \<Rightarrow>
        fileOpAt env dirFD path fn t
          = (fst (fn root d name rem t1), fold DecRef rels (snd (fn root d name rem t1)))
        \<and> root = fsroot t
        \<and> DirentRef d \<in> set rels
        \<and> (\<forall>x. refs t1 x = refs t x + int (count (mset rels) x))
        \<and> (\<exists>evs. reflog t1 = reflog t @ evs \<and> acquired evs = mset rels + released evs)
        \<and> (0 \<le> refs t (DirentRef d) \<longrightarrow> 0 < refs t1 (DirentRef d))
        \<and> (0 < refs t (DirentRef root) \<longrightarrow> 0 < refs t1 (DirentRef root))
        \<and> (refs (snd (fn root d name rem t1)) = refs t1
             \<longrightarrow> refs (snd (fileOpAt env dirFD path fn t)) = refs t))"
proof (cases "fileOpAt_resolve env dirFD path t")
  case (Inl bad)
  obtain err t' where bad: "bad = (err, t')" by (cases bad)
  from fileOpAt_resolve_references [where env = env and dirFD = dirFD and path = path and t = t]
    Inl bad
  show ?thesis by (simp add: fileOpAt_eq)
next
  case (Inr good)
  obtain root d name rem t1 rels where good: "good = (root, d, name, rem, t1, rels)"
    by (cases good)
  from fileOpAt_resolve_references [where env = env and dirFD = dirFD and path = path and t = t]
    Inr good
  have r: "root = fsroot t"
    and m: "DirentRef d \<in> set rels"
    and c: "\<forall>x. refs t1 x = refs t x + int (count (mset rels) x)"
    and l: "\<exists>evs. reflog t1 = reflog t @ evs \<and> acquired evs = mset rels + released evs"
    by simp_all
  have e: "fileOpAt env dirFD path fn t
          = (fst (fn root d name rem t1), fold DecRef rels (snd (fn root d name rem t1)))"
    using Inr good by (simp add: fileOpAt_eq split: prod.splits)
  have restored: "refs (snd (fn root d name rem t1)) = refs t1
             \<longrightarrow> refs (snd (fileOpAt env dirFD path fn t)) = refs t"
    by (simp add: e c fold_DecRef_refs fun_eq_iff)
  from m have "0 < int (count (mset rels) (DirentRef d))" by simp
  with c [rule_format, of "DirentRef d"]
  have pd: "0 \<le> refs t (DirentRef d) \<longrightarrow> 0 < refs t1 (DirentRef d)"
    by arith
  from c have pr: "0 < refs t (DirentRef root) \<longrightarrow> 0 < refs t1 (DirentRef root)"
    by simp
  from e r m c l pd pr restored Inr good show ?thesis by simp
qed


end
